theory Spec2Isabelle
  imports Complex_Main "HOL-Library.Word"
begin

section \<open>Theme colours (theme/color.go)\<close>

text \<open>
  \<^verbatim>\<open>color.NRGBA{R, G, B, A}\<close> has four \<^verbatim>\<open>uint8\<close> channels. A value of the interface
  type \<^verbatim>\<open>color.Color\<close> is modelled as an option: \<open>None\<close> is the \<^verbatim>\<open>nil\<close> interface.
\<close>

datatype NRGBA = NRGBA "8 word" "8 word" "8 word" "8 word"

definition ColorRed :: string where "ColorRed = ''red''"
definition ColorOrange :: string where "ColorOrange = ''orange''"
definition ColorYellow :: string where "ColorYellow = ''yellow''"
definition ColorGreen :: string where "ColorGreen = ''green''"
definition ColorBlue :: string where "ColorBlue = ''blue''"
definition ColorPurple :: string where "ColorPurple = ''purple''"
definition ColorBrown :: string where "ColorBrown = ''brown''"
definition ColorGray :: string where "ColorGray = ''gray''"

definition ColorNameBackground :: string where "ColorNameBackground = ''background''"
definition ColorNameButton :: string where "ColorNameButton = ''button''"
definition ColorNameDisabledButton :: string where "ColorNameDisabledButton = ''disabledButton''"
definition ColorNameDisabled :: string where "ColorNameDisabled = ''disabled''"
definition ColorNameError :: string where "ColorNameError = ''error''"
definition ColorNameFocus :: string where "ColorNameFocus = ''focus''"
definition ColorNameForeground :: string where "ColorNameForeground = ''foreground''"
definition ColorNameHeaderBackground :: string where
  "ColorNameHeaderBackground = ''headerBackground''"
definition ColorNameHover :: string where "ColorNameHover = ''hover''"
definition ColorNameHyperlink :: string where "ColorNameHyperlink = ''hyperlink''"
definition ColorNameInputBackground :: string where
  "ColorNameInputBackground = ''inputBackground''"
definition ColorNameInputBorder :: string where "ColorNameInputBorder = ''inputBorder''"
definition ColorNameMenuBackground :: string where "ColorNameMenuBackground = ''menuBackground''"
definition ColorNameOverlayBackground :: string where
  "ColorNameOverlayBackground = ''overlayBackground''"
definition ColorNamePlaceHolder :: string where "ColorNamePlaceHolder = ''placeholder''"
definition ColorNamePressed :: string where "ColorNamePressed = ''pressed''"
definition ColorNamePrimary :: string where "ColorNamePrimary = ''primary''"
definition ColorNameScrollBar :: string where "ColorNameScrollBar = ''scrollBar''"
definition ColorNameSelection :: string where "ColorNameSelection = ''selection''"
definition ColorNameSeparator :: string where "ColorNameSeparator = ''separator''"
definition ColorNameShadow :: string where "ColorNameShadow = ''shadow''"
definition ColorNameSuccess :: string where "ColorNameSuccess = ''success''"
definition ColorNameWarning :: string where "ColorNameWarning = ''warning''"

definition colorDarkBackground :: NRGBA where
  "colorDarkBackground = NRGBA 0x17 0x17 0x18 0xff"
definition colorLightBackground :: NRGBA where
  "colorLightBackground = NRGBA 0xff 0xff 0xff 0xff"

subsection \<open>The named primary colours\<close>

text \<open>
  A Go \<^verbatim>\<open>switch\<close> on a string takes the first case whose constant equals the name and
  falls out of the switch when none does.
\<close>

definition PrimaryForegroundColorNamed :: "string \<Rightarrow> NRGBA option" where
  "PrimaryForegroundColorNamed name =
     (if name = ColorRed then Some colorLightBackground
      else if name = ColorOrange then Some colorDarkBackground
      else if name = ColorYellow then Some colorDarkBackground
      else if name = ColorGreen then Some colorDarkBackground
      else if name = ColorPurple then Some colorLightBackground
      else if name = ColorBrown then Some colorLightBackground
      else if name = ColorGray then Some colorDarkBackground
      else Some colorLightBackground)"

definition PrimaryColorNamed :: "string \<Rightarrow> NRGBA option" where
  "PrimaryColorNamed name =
     (if name = ColorRed then Some (NRGBA 0xf4 0x43 0x36 0xff)
      else if name = ColorOrange then Some (NRGBA 0xff 0x98 0x00 0xff)
      else if name = ColorYellow then Some (NRGBA 0xff 0xeb 0x3b 0xff)
      else if name = ColorGreen then Some (NRGBA 0x8b 0xc3 0x4a 0xff)
      else if name = ColorPurple then Some (NRGBA 0x9c 0x27 0xb0 0xff)
      else if name = ColorBrown then Some (NRGBA 0x79 0x55 0x48 0xff)
      else if name = ColorGray then Some (NRGBA 0x9e 0x9e 0x9e 0xff)
      else Some (NRGBA 0x29 0x6f 0xf6 0xff))"

definition PrimaryColorNames :: "string list" where
  "PrimaryColorNames =
     [ColorRed, ColorOrange, ColorYellow, ColorGreen, ColorBlue, ColorPurple, ColorBrown,
      ColorGray]"

subsection \<open>Lookups through the current theme\<close>

text \<open>
  \<^verbatim>\<open>Current()\<close>, \<^verbatim>\<open>currentVariant()\<close> and \<^verbatim>\<open>fallbackColor\<close> are declared
  outside this file: they are the fields of the environment that every accessor takes.
  A theme is its \<^verbatim>\<open>Color(name, variant)\<close> method, which may return \<^verbatim>\<open>nil\<close>.
  \<^verbatim>\<open>fyne.LogError\<close> appends its message to the error log, which is passed through.
\<close>

type_synonym ThemeVariant = nat

record 'c theme_env =
  Current :: "string \<Rightarrow> ThemeVariant \<Rightarrow> 'c option"
  currentVariant :: ThemeVariant
  fallbackColor :: 'c

definition safeColorLookup ::
  "'c theme_env \<Rightarrow> string \<Rightarrow> ThemeVariant \<Rightarrow> string list \<Rightarrow> 'c option \<times> string list" where
  "safeColorLookup env n v errlog =
     (case Current env n v of
        None \<Rightarrow> (Some (fallbackColor env), errlog @ [''Loaded theme returned nil color''])
      | Some col \<Rightarrow> (Some col, errlog))"

definition BackgroundColor :: "'c theme_env \<Rightarrow> string list \<Rightarrow> 'c option \<times> string list" where
  "BackgroundColor env errlog = safeColorLookup env ColorNameBackground (currentVariant env) errlog"

definition ButtonColor :: "'c theme_env \<Rightarrow> string list \<Rightarrow> 'c option \<times> string list" where
  "ButtonColor env errlog = safeColorLookup env ColorNameButton (currentVariant env) errlog"

definition Color :: "'c theme_env \<Rightarrow> string \<Rightarrow> string list \<Rightarrow> 'c option \<times> string list" where
  "Color env name errlog = safeColorLookup env name (currentVariant env) errlog"

text \<open>
  \<^verbatim>\<open>ColorForWidget\<close> asks the theme of the widget, \<^verbatim>\<open>CurrentForWidget(w)\<close>, which is
  declared outside this file and is a parameter here.
\<close>

definition ColorForWidget ::
  "'c theme_env \<Rightarrow> (string \<Rightarrow> ThemeVariant \<Rightarrow> 'c option) \<Rightarrow> string \<Rightarrow> string list
   \<Rightarrow> 'c option \<times> string list" where
  "ColorForWidget env widgetTheme name errlog = (widgetTheme name (currentVariant env), errlog)"

definition DisabledButtonColor :: "'c theme_env \<Rightarrow> string list \<Rightarrow> 'c option \<times> string list" where
  "DisabledButtonColor env errlog =
     safeColorLookup env ColorNameDisabledButton (currentVariant env) errlog"

definition DisabledColor :: "'c theme_env \<Rightarrow> string list \<Rightarrow> 'c option \<times> string list" where
  "DisabledColor env errlog = safeColorLookup env ColorNameDisabled (currentVariant env) errlog"

definition DisabledTextColor :: "'c theme_env \<Rightarrow> string list \<Rightarrow> 'c option \<times> string list" where
  "DisabledTextColor env errlog = DisabledColor env errlog"

definition ErrorColor :: "'c theme_env \<Rightarrow> string list \<Rightarrow> 'c option \<times> string list" where
  "ErrorColor env errlog = safeColorLookup env ColorNameError (currentVariant env) errlog"

definition FocusColor :: "'c theme_env \<Rightarrow> string list \<Rightarrow> 'c option \<times> string list" where
  "FocusColor env errlog = safeColorLookup env ColorNameFocus (currentVariant env) errlog"

definition ForegroundColor :: "'c theme_env \<Rightarrow> string list \<Rightarrow> 'c option \<times> string list" where
  "ForegroundColor env errlog = safeColorLookup env ColorNameForeground (currentVariant env) errlog"

definition HeaderBackgroundColor :: "'c theme_env \<Rightarrow> string list \<Rightarrow> 'c option \<times> string list" where
  "HeaderBackgroundColor env errlog =
     (Current env ColorNameHeaderBackground (currentVariant env), errlog)"

definition HoverColor :: "'c theme_env \<Rightarrow> string list \<Rightarrow> 'c option \<times> string list" where
  "HoverColor env errlog = safeColorLookup env ColorNameHover (currentVariant env) errlog"

definition HyperlinkColor :: "'c theme_env \<Rightarrow> string list \<Rightarrow> 'c option \<times> string list" where
  "HyperlinkColor env errlog = safeColorLookup env ColorNameHyperlink (currentVariant env) errlog"

definition InputBackgroundColor :: "'c theme_env \<Rightarrow> string list \<Rightarrow> 'c option \<times> string list" where
  "InputBackgroundColor env errlog =
     (Current env ColorNameInputBackground (currentVariant env), errlog)"

definition InputBorderColor :: "'c theme_env \<Rightarrow> string list \<Rightarrow> 'c option \<times> string list" where
  "InputBorderColor env errlog = (Current env ColorNameInputBorder (currentVariant env), errlog)"

definition MenuBackgroundColor :: "'c theme_env \<Rightarrow> string list \<Rightarrow> 'c option \<times> string list" where
  "MenuBackgroundColor env errlog =
     safeColorLookup env ColorNameMenuBackground (currentVariant env) errlog"

definition OverlayBackgroundColor :: "'c theme_env \<Rightarrow> string list \<Rightarrow> 'c option \<times> string list" where
  "OverlayBackgroundColor env errlog =
     safeColorLookup env ColorNameOverlayBackground (currentVariant env) errlog"

definition PlaceHolderColor :: "'c theme_env \<Rightarrow> string list \<Rightarrow> 'c option \<times> string list" where
  "PlaceHolderColor env errlog =
     safeColorLookup env ColorNamePlaceHolder (currentVariant env) errlog"

definition PressedColor :: "'c theme_env \<Rightarrow> string list \<Rightarrow> 'c option \<times> string list" where
  "PressedColor env errlog = safeColorLookup env ColorNamePressed (currentVariant env) errlog"

definition PrimaryColor :: "'c theme_env \<Rightarrow> string list \<Rightarrow> 'c option \<times> string list" where
  "PrimaryColor env errlog = safeColorLookup env ColorNamePrimary (currentVariant env) errlog"

definition ScrollBarColor :: "'c theme_env \<Rightarrow> string list \<Rightarrow> 'c option \<times> string list" where
  "ScrollBarColor env errlog = safeColorLookup env ColorNameScrollBar (currentVariant env) errlog"

definition SelectionColor :: "'c theme_env \<Rightarrow> string list \<Rightarrow> 'c option \<times> string list" where
  "SelectionColor env errlog = safeColorLookup env ColorNameSelection (currentVariant env) errlog"

definition SeparatorColor :: "'c theme_env \<Rightarrow> string list \<Rightarrow> 'c option \<times> string list" where
  "SeparatorColor env errlog = safeColorLookup env ColorNameSeparator (currentVariant env) errlog"

definition ShadowColor :: "'c theme_env \<Rightarrow> string list \<Rightarrow> 'c option \<times> string list" where
  "ShadowColor env errlog = safeColorLookup env ColorNameShadow (currentVariant env) errlog"

definition SuccessColor :: "'c theme_env \<Rightarrow> string list \<Rightarrow> 'c option \<times> string list" where
  "SuccessColor env errlog = safeColorLookup env ColorNameSuccess (currentVariant env) errlog"

definition WarningColor :: "'c theme_env \<Rightarrow> string list \<Rightarrow> 'c option \<times> string list" where
  "WarningColor env errlog = safeColorLookup env ColorNameWarning (currentVariant env) errlog"

text \<open>A theme that defines no colour at all: its \<^verbatim>\<open>Color\<close> method returns \<^verbatim>\<open>nil\<close>.\<close>

definition nilTheme :: "NRGBA theme_env" where
  "nilTheme = \<lparr>Current = (\<lambda>n v. None), currentVariant = 0, fallbackColor = NRGBA 0 0 0 0\<rparr>"

section \<open>Form layout (layout/formlayout.go)\<close>

text \<open>
  A \<^verbatim>\<open>float32\<close> coordinate is modelled as a real number: rounding, infinities and NaN
  are left out, and no property below depends on them (the sizes of the worked example are
  small integers, which \<^verbatim>\<open>float32\<close> adds exactly).

  A \<^verbatim>\<open>fyne.CanvasObject\<close> is an interface. The layout reads \<^verbatim>\<open>Visible()\<close> and
  \<^verbatim>\<open>MinSize()\<close>, tests whether the dynamic type is \<^verbatim>\<open>*canvas.Text\<close>, and calls
  \<^verbatim>\<open>Move\<close> and \<^verbatim>\<open>Resize\<close>: an object is the record of these readings with its
  position and size. Every slot of the object list holds an object of its own (a container
  holds an object once).
\<close>

datatype panic = IndexOutOfRange | SliceOutOfRange

record Size =
  Width :: real
  Height :: real

record Position =
  X :: real
  Y :: real

record CanvasObject =
  Visible :: bool
  ObjMinSize :: Size
  IsText :: bool
  ObjPosition :: Position
  ObjSize :: Size

definition NewSize :: "real \<Rightarrow> real \<Rightarrow> Size" where
  "NewSize w h = \<lparr>Width = w, Height = h\<rparr>"

definition NewPos :: "real \<Rightarrow> real \<Rightarrow> Position" where
  "NewPos x y = \<lparr>X = x, Y = y\<rparr>"

text \<open>
  Modelled from the spec: \<^verbatim>\<open>Move\<close> and \<^verbatim>\<open>Resize\<close> are methods of the objects'
  implementations, which are not among the sources. The spec says of the layout that it has
  ``no side effects beyond position/size mutation of the passed elements''.
\<close>

definition Move :: "CanvasObject \<Rightarrow> Position \<Rightarrow> CanvasObject" where
  "Move obj pos = obj\<lparr>ObjPosition := pos\<rparr>"

definition Resize :: "CanvasObject \<Rightarrow> Size \<Rightarrow> CanvasObject" where
  "Resize obj sz = obj\<lparr>ObjSize := sz\<rparr>"

text \<open>
  Modelled from the spec: \<^verbatim>\<open>fyne.Max\<close> is declared outside the sources; the spec
  calls its result ``the max'' of the two values.
\<close>

definition fyne_Max :: "real \<Rightarrow> real \<Rightarrow> real" where
  "fyne_Max x y = max x y"

text \<open>
  \<^verbatim>\<open>theme.Padding()\<close> and \<^verbatim>\<open>theme.InnerPadding()\<close> are read from the current theme,
  outside the sources: the layout functions take them as a parameter.
\<close>

record theme_sizes =
  Padding :: real
  InnerPadding :: real

definition formLayoutCols :: nat where
  "formLayoutCols = 2"

type_synonym table = "(Size \<times> Size) list"

text \<open>
  Indexing a slice outside its length panics. Slicing \<^verbatim>\<open>s[lo:hi]\<close> panics unless
  \<open>lo \<le> hi \<le> cap(s)\<close>; the object list is taken with its capacity equal to its length.
\<close>

definition slice :: "'a list \<Rightarrow> nat \<Rightarrow> nat \<Rightarrow> panic + 'a list" where
  "slice xs lo hi =
     (if lo \<le> hi \<and> hi \<le> length xs then Inr (take (hi - lo) (drop lo xs))
      else Inl SliceOutOfRange)"

subsection \<open>countRows\<close>

text \<open>
  The loop of \<^verbatim>\<open>countRows\<close>, from index \<open>i\<close> with the count so far.
  \<^verbatim>\<open>!objects[i].Visible() && !objects[i+1].Visible()\<close> reads \<^verbatim>\<open>objects[i+1]\<close> only
  when \<^verbatim>\<open>objects[i]\<close> is invisible, and that read has no bounds check of its own.
\<close>

function countRows_loop :: "CanvasObject list \<Rightarrow> nat \<Rightarrow> nat \<Rightarrow> panic + nat" where
  "countRows_loop objects i count =
     (if i < length objects then
        (if Visible (objects ! i) then countRows_loop objects (i + formLayoutCols) (count + 1)
         else if i + 1 < length objects then
           (if Visible (objects ! (i + 1)) then
              countRows_loop objects (i + formLayoutCols) (count + 1)
            else countRows_loop objects (i + formLayoutCols) count)
         else Inl IndexOutOfRange)
      else Inr count)"
  by pat_completeness auto
termination
  by (relation "measure (\<lambda>(objects, i, count). length objects - i)")
     (auto simp: formLayoutCols_def)

definition countRows :: "CanvasObject list \<Rightarrow> panic + nat" where
  "countRows objects = countRows_loop objects 0 0"

subsection \<open>tableCellsSize\<close>

text \<open>
  The cells of one visible row: the label's minimum size (widened by twice the inner padding
  when the label is a \<^verbatim>\<open>*canvas.Text\<close>) and the content's minimum size, both with the
  row height, the larger of the two heights.
\<close>

definition rowCells :: "real \<Rightarrow> CanvasObject \<Rightarrow> CanvasObject \<Rightarrow> Size \<times> Size" where
  "rowCells innerPadding label content =
     (let labelCell = ObjMinSize label;
          labelCell = (if IsText label
                       then labelCell\<lparr>Width := Width labelCell + innerPadding * 2\<rparr>
                       else labelCell);
          contentCell = ObjMinSize content;
          rowHeight = fyne_Max (Height labelCell) (Height contentCell)
      in (labelCell\<lparr>Height := rowHeight\<rparr>, contentCell\<lparr>Height := rowHeight\<rparr>))"

text \<open>
  The loop of \<^verbatim>\<open>tableCellsSize\<close>. A \<^verbatim>\<open>currentRow\<close> shorter than two objects panics at
  \<^verbatim>\<open>currentRow[0]\<close> or \<^verbatim>\<open>currentRow[1]\<close>, whichever is read first; writing
  \<^verbatim>\<open>table[row]\<close> panics outside the table.
\<close>

function tableCellsSize_loop ::
  "real \<Rightarrow> CanvasObject list \<Rightarrow> nat \<Rightarrow> nat \<Rightarrow> nat \<Rightarrow> nat \<Rightarrow> real \<Rightarrow> real \<Rightarrow> table
   \<Rightarrow> panic + (real \<times> real \<times> table)" where
  "tableCellsSize_loop innerPadding objects rows row lowBound highBound
       labelCellMaxWidth contentCellMaxWidth table =
     (if row < rows then
        (case slice objects lowBound highBound of
           Inl e \<Rightarrow> Inl e
         | Inr currentRow \<Rightarrow>
             if length currentRow < 2 then Inl IndexOutOfRange
             else if \<not> Visible (currentRow ! 0) \<and> \<not> Visible (currentRow ! 1) then
               tableCellsSize_loop innerPadding objects rows row highBound
                 (highBound + formLayoutCols) labelCellMaxWidth contentCellMaxWidth table
             else if row < length table then
               tableCellsSize_loop innerPadding objects rows (row + 1) highBound
                 (highBound + formLayoutCols)
                 (fyne_Max labelCellMaxWidth
                    (Width (fst (rowCells innerPadding (currentRow ! 0) (currentRow ! 1)))))
                 (fyne_Max contentCellMaxWidth
                    (Width (snd (rowCells innerPadding (currentRow ! 0) (currentRow ! 1)))))
                 (table[row := rowCells innerPadding (currentRow ! 0) (currentRow ! 1)])
             else Inl IndexOutOfRange)
      else Inr (labelCellMaxWidth, contentCellMaxWidth, table))"
  by pat_completeness auto
termination
  by (relation "measure (\<lambda>(innerPadding, objects, rows, row, lowBound, highBound, rest).
         Suc (length objects) - highBound)")
     (auto simp: formLayoutCols_def slice_def split: if_splits)

definition tableCellsSize ::
  "theme_sizes \<Rightarrow> CanvasObject list \<Rightarrow> real \<Rightarrow> panic + (real \<times> real \<times> table)" where
  "tableCellsSize th objects containerWidth =
     (case countRows objects of
        Inl e \<Rightarrow> Inl e
      | Inr rows \<Rightarrow>
          (let table = replicate rows (NewSize 0 0, NewSize 0 0) in
           if length objects mod formLayoutCols \<noteq> 0 then Inr (0, 0, table)
           else
             (case tableCellsSize_loop (InnerPadding th) objects rows 0 0 2 0 0 table of
                Inl e \<Rightarrow> Inl e
              | Inr (labelCellMaxWidth, contentCellMaxWidth, table') \<Rightarrow>
                  Inr (labelCellMaxWidth,
                       fyne_Max contentCellMaxWidth
                         (containerWidth - labelCellMaxWidth - Padding th),
                       table'))))"

subsection \<open>MinSize\<close>

function MinSize_loop :: "real \<Rightarrow> table \<Rightarrow> nat \<Rightarrow> Size \<Rightarrow> bool \<Rightarrow> Size" where
  "MinSize_loop padding table row minSize added =
     (if row < length table then
        MinSize_loop padding table (row + 1)
          (if added
           then minSize\<lparr>Height := Height minSize + Height (fst (table ! row)) + padding\<rparr>
           else minSize\<lparr>Height := Height minSize + Height (fst (table ! row))\<rparr>)
          True
      else minSize)"
  by pat_completeness auto
termination
  by (relation "measure (\<lambda>(padding, table, row, minSize, added). length table - row)") auto

definition MinSize :: "theme_sizes \<Rightarrow> CanvasObject list \<Rightarrow> panic + Size" where
  "MinSize th objects =
     (case tableCellsSize th objects 0 of
        Inl e \<Rightarrow> Inl e
      | Inr (labelWidth, contentWidth, table) \<Rightarrow>
          if length table = 0 then Inr (NewSize 0 0)
          else Inr (MinSize_loop (Padding th) table 0
                      ((NewSize 0 0)\<lparr>Width := labelWidth + contentWidth + Padding th\<rparr>) False))"

subsection \<open>Layout\<close>

definition placeLabel :: "real \<Rightarrow> real \<Rightarrow> Size \<times> Size \<Rightarrow> real \<Rightarrow> CanvasObject \<Rightarrow> CanvasObject" where
  "placeLabel innerPadding labelWidth tableRow y obj =
     (if IsText obj then
        Resize (Move obj (NewPos innerPadding (y + innerPadding)))
          (NewSize (labelWidth - innerPadding * 2) (Height (ObjMinSize obj)))
      else
        Resize (Move obj (NewPos 0 y)) (NewSize labelWidth (Height (fst tableRow))))"

definition placeContent ::
  "theme_sizes \<Rightarrow> real \<Rightarrow> real \<Rightarrow> Size \<times> Size \<Rightarrow> real \<Rightarrow> CanvasObject \<Rightarrow> CanvasObject" where
  "placeContent th labelWidth contentWidth tableRow y obj =
     (if IsText obj then
        Resize (Move obj (NewPos (Padding th + labelWidth + InnerPadding th) (y + InnerPadding th)))
          (NewSize (contentWidth - InnerPadding th * 2) (Height (ObjMinSize obj)))
      else
        Resize (Move obj (NewPos (Padding th + labelWidth) y))
          (NewSize contentWidth (Height (fst tableRow))))"

text \<open>
  The loop of \<^verbatim>\<open>Layout\<close>, from index \<open>i\<close> with the row counter and the vertical offset.
  Here the read of \<^verbatim>\<open>objects[i+1]\<close> is guarded by \<^verbatim>\<open>i+1 < len(objects)\<close>.
\<close>

definition nextY :: "real \<Rightarrow> table \<Rightarrow> nat \<Rightarrow> real \<Rightarrow> real" where
  "nextY padding table row y =
     (if row > 0 then y + (Height (fst (table ! (row - 1))) + padding) else y)"

function Layout_loop ::
  "theme_sizes \<Rightarrow> real \<Rightarrow> real \<Rightarrow> table \<Rightarrow> CanvasObject list \<Rightarrow> nat \<Rightarrow> nat \<Rightarrow> real
   \<Rightarrow> panic + CanvasObject list" where
  "Layout_loop th labelWidth contentWidth table objects i row y =
     (if i < length objects then
        (if \<not> Visible (objects ! i) \<and> (i + 1 < length objects \<and> \<not> Visible (objects ! (i + 1)))
         then Layout_loop th labelWidth contentWidth table objects (i + formLayoutCols) row y
         else if row > 0 \<and> \<not> row - 1 < length table then Inl IndexOutOfRange
         else if \<not> row < length table then Inl IndexOutOfRange
         else
           Layout_loop th labelWidth contentWidth table
             (if i + 1 < length objects then
                (objects[i := placeLabel (InnerPadding th) labelWidth (table ! row)
                                (nextY (Padding th) table row y) (objects ! i)])
                  [i + 1 := placeContent th labelWidth contentWidth (table ! row)
                                (nextY (Padding th) table row y) (objects ! (i + 1))]
              else
                objects[i := placeLabel (InnerPadding th) labelWidth (table ! row)
                               (nextY (Padding th) table row y) (objects ! i)])
             (i + formLayoutCols) (row + 1) (nextY (Padding th) table row y))
      else Inr objects)"
  by pat_completeness auto
termination
  by (relation "measure (\<lambda>(th, labelWidth, contentWidth, table, objects, i, rest).
         length objects - i)")
     (auto simp: formLayoutCols_def)

definition Layout :: "theme_sizes \<Rightarrow> CanvasObject list \<Rightarrow> Size \<Rightarrow> panic + CanvasObject list" where
  "Layout th objects sz =
     (case tableCellsSize th objects (Width sz) of
        Inl e \<Rightarrow> Inl e
      | Inr (labelWidth, contentWidth, table) \<Rightarrow>
          Layout_loop th labelWidth contentWidth table objects 0 0 0)"

subsection \<open>Rows of a form, for stating the properties\<close>

text \<open>
  The object list is read two by two: a row is a label and its content. A row is visible
  unless both of its cells are invisible. \<open>dropInvisibleRows\<close> removes the rows whose
  cells are both invisible from an object list, and leaves a final object without a partner
  in place.
\<close>

fun rowPairs :: "'a list \<Rightarrow> ('a \<times> 'a) list" where
  "rowPairs (a # b # rest) = (a, b) # rowPairs rest"
| "rowPairs rest = []"

definition rowVisible :: "CanvasObject \<times> CanvasObject \<Rightarrow> bool" where
  "rowVisible r = (Visible (fst r) \<or> Visible (snd r))"

definition visibleRows :: "CanvasObject list \<Rightarrow> (CanvasObject \<times> CanvasObject) list" where
  "visibleRows objects = filter rowVisible (rowPairs objects)"

fun dropInvisibleRows :: "CanvasObject list \<Rightarrow> CanvasObject list" where
  "dropInvisibleRows (a # b # rest) =
     (if \<not> Visible a \<and> \<not> Visible b then dropInvisibleRows rest
      else a # b # dropInvisibleRows rest)"
| "dropInvisibleRows rest = rest"

text \<open>
  The cells that the loop of \<^verbatim>\<open>tableCellsSize\<close> computes, by recursion over the visible
  rows, and the placement that the loop of \<^verbatim>\<open>Layout\<close> performs, by recursion over the
  object list. The loops are shown below to compute them on every list of even length.
\<close>

fun cellsOfRows ::
  "real \<Rightarrow> (CanvasObject \<times> CanvasObject) list \<Rightarrow> nat \<Rightarrow> real \<Rightarrow> real \<Rightarrow> table
   \<Rightarrow> real \<times> real \<times> table" where
  "cellsOfRows ip [] row lm cm table = (lm, cm, table)"
| "cellsOfRows ip (r # rs) row lm cm table =
     cellsOfRows ip rs (row + 1)
       (fyne_Max lm (Width (fst (rowCells ip (fst r) (snd r)))))
       (fyne_Max cm (Width (snd (rowCells ip (fst r) (snd r)))))
       (table[row := rowCells ip (fst r) (snd r)])"

definition cellsOfForm ::
  "theme_sizes \<Rightarrow> CanvasObject list \<Rightarrow> real \<Rightarrow> real \<times> real \<times> table" where
  "cellsOfForm th objects containerWidth =
     (case cellsOfRows (InnerPadding th) (visibleRows objects) 0 0 0
             (replicate (length (visibleRows objects)) (NewSize 0 0, NewSize 0 0)) of
        (lm, cm, t) \<Rightarrow> (lm, fyne_Max cm (containerWidth - lm - Padding th), t))"

fun layoutRows ::
  "theme_sizes \<Rightarrow> real \<Rightarrow> real \<Rightarrow> table \<Rightarrow> nat \<Rightarrow> real \<Rightarrow> CanvasObject list \<Rightarrow> CanvasObject list"
  where
  "layoutRows th lw cw table row y (a # b # rest) =
     (if \<not> Visible a \<and> \<not> Visible b then a # b # layoutRows th lw cw table row y rest
      else placeLabel (InnerPadding th) lw (table ! row) (nextY (Padding th) table row y) a
         # placeContent th lw cw (table ! row) (nextY (Padding th) table row y) b
         # layoutRows th lw cw table (row + 1) (nextY (Padding th) table row y) rest)"
| "layoutRows th lw cw table row y rest = rest"

subsection \<open>Example forms\<close>

text \<open>
  A widget that is not a \<^verbatim>\<open>*canvas.Text\<close>, with a minimum size, at the origin; a
  theme with the paddings 4 and 8; the two-row form of the specification's example, with minimum
  heights 10 and 20 in its first row and 30 and 5 in its second; and the same form with a
  row of two invisible widgets between the two.
\<close>

definition widget :: "bool \<Rightarrow> real \<Rightarrow> real \<Rightarrow> CanvasObject" where
  "widget v w h = \<lparr>Visible = v, ObjMinSize = NewSize w h, IsText = False,
                   ObjPosition = NewPos 0 0, ObjSize = NewSize 0 0\<rparr>"

definition exampleTheme :: theme_sizes where
  "exampleTheme = \<lparr>Padding = 4, InnerPadding = 8\<rparr>"

definition twoRowForm :: "CanvasObject list" where
  "twoRowForm = [widget True 1 10, widget True 1 20, widget True 1 30, widget True 1 5]"

definition hiddenRowForm :: "CanvasObject list" where
  "hiddenRowForm = [widget True 1 10, widget True 1 20, widget False 7 7, widget False 7 7,
                    widget True 1 30, widget True 1 5]"

section \<open>Preferences (app/preferences.go)\<close>

subsection \<open>The operating system, as far as the store uses it\<close>

text \<open>
  The file system is explicit state: the content of every file (a sequence of bytes, or of
  the documents that a codec writes), the set of directories, the failures that the
  environment injects (for each call, the error it fails with, if any) and the trace of the
  calls made so far. An \<^verbatim>\<open>error\<close> value is one of the two kinds that the
  code tests for, or any other error with its message; \<open>None\<close> is \<^verbatim>\<open>nil\<close>.
\<close>

datatype error = ErrNotExist | ErrExist | ErrOther string

definition IsNotExist :: "error \<Rightarrow> bool" where
  "IsNotExist err = (err = ErrNotExist)"

definition IsExist :: "error \<Rightarrow> bool" where
  "IsExist err = (err = ErrExist)"

datatype os_call =
  MkdirAll string | Create string | Open string | Read string | Write string | Sync string
  | Close string

record 'b filesystem =
  files :: "string \<rightharpoonup> 'b list"
  dirs :: "string set"
  failing :: "os_call \<Rightarrow> error option"
  calls :: "os_call list"

record os_file =
  Name :: string
  writable :: bool

definition called :: "os_call \<Rightarrow> 'b filesystem \<Rightarrow> 'b filesystem" where
  "called c fs = fs\<lparr>calls := calls fs @ [c]\<rparr>"

definition os_MkdirAll :: "string \<Rightarrow> 'b filesystem \<Rightarrow> error option \<times> 'b filesystem" where
  "os_MkdirAll dir fs =
     (case failing fs (MkdirAll dir) of
        Some err \<Rightarrow> (Some err, called (MkdirAll dir) fs)
      | None \<Rightarrow> (None, called (MkdirAll dir) (fs\<lparr>dirs := insert dir (dirs fs)\<rparr>)))"

text \<open>\<^verbatim>\<open>os.Create\<close> truncates the file and opens it for writing.\<close>

definition os_Create :: "string \<Rightarrow> 'b filesystem \<Rightarrow> (error + os_file) \<times> 'b filesystem" where
  "os_Create path fs =
     (case failing fs (Create path) of
        Some err \<Rightarrow> (Inl err, called (Create path) fs)
      | None \<Rightarrow>
          (Inr \<lparr>Name = path, writable = True\<rparr>,
           called (Create path) (fs\<lparr>files := (files fs)(path \<mapsto> [])\<rparr>)))"

text \<open>\<^verbatim>\<open>os.Open\<close> opens an existing file for reading; a missing file is \<^verbatim>\<open>ErrNotExist\<close>.\<close>

definition os_Open :: "string \<Rightarrow> 'b filesystem \<Rightarrow> (error + os_file) \<times> 'b filesystem" where
  "os_Open path fs =
     (case failing fs (Open path) of
        Some err \<Rightarrow> (Inl err, called (Open path) fs)
      | None \<Rightarrow>
          (case files fs path of
             None \<Rightarrow> (Inl ErrNotExist, called (Open path) fs)
           | Some content \<Rightarrow> (Inr \<lparr>Name = path, writable = False\<rparr>, called (Open path) fs)))"

definition file_Write :: "os_file \<Rightarrow> 'b list \<Rightarrow> 'b filesystem \<Rightarrow> error option \<times> 'b filesystem" where
  "file_Write f bytes fs =
     (if \<not> writable f then (Some (ErrOther ''bad file descriptor''), called (Write (Name f)) fs)
      else
        (case failing fs (Write (Name f)) of
           Some err \<Rightarrow> (Some err, called (Write (Name f)) fs)
         | None \<Rightarrow>
             (None,
              called (Write (Name f))
                (fs\<lparr>files := (files fs)(Name f \<mapsto>
                   (case files fs (Name f) of None \<Rightarrow> bytes | Some old \<Rightarrow> old @ bytes))\<rparr>))))"

definition file_Read :: "os_file \<Rightarrow> 'b filesystem \<Rightarrow> (error + 'b list) \<times> 'b filesystem" where
  "file_Read f fs =
     (case failing fs (Read (Name f)) of
        Some err \<Rightarrow> (Inl err, called (Read (Name f)) fs)
      | None \<Rightarrow>
          (Inr (case files fs (Name f) of None \<Rightarrow> [] | Some content \<Rightarrow> content),
           called (Read (Name f)) fs))"

definition file_Sync :: "os_file \<Rightarrow> 'b filesystem \<Rightarrow> error option \<times> 'b filesystem" where
  "file_Sync f fs = (failing fs (Sync (Name f)), called (Sync (Name f)) fs)"

definition file_Close :: "os_file \<Rightarrow> 'b filesystem \<Rightarrow> error option \<times> 'b filesystem" where
  "file_Close f fs = (failing fs (Close (Name f)), called (Close (Name f)) fs)"

text \<open>The number of writes to a file among the calls made so far.\<close>

fun isWrite :: "os_call \<Rightarrow> bool" where
  "isWrite (Write path) = True"
| "isWrite c = False"

definition fileWrites :: "'b filesystem \<Rightarrow> nat" where
  "fileWrites fs = length (filter isWrite (calls fs))"

subsection \<open>The store\<close>

text \<open>
  What the store takes from outside the sources: its storage path (\<^verbatim>\<open>storagePath()\<close>),
  \<^verbatim>\<open>filepath.Dir\<close>, and the JSON encoder and decoder of the value map. Encoding either
  fails or yields the bytes to write; decoding into an existing map returns the error, if
  any, and the map as it stands afterwards. The encoder and decoder of \<^verbatim>\<open>encoding/json\<close>
  are modelled below (\<open>jsonEnv\<close>).
\<close>

record ('v, 'b) env =
  storagePath :: string
  Dir :: "string \<Rightarrow> string"
  Encode :: "(string \<rightharpoonup> 'v) \<Rightarrow> error + 'b list"
  Decode :: "'b list \<Rightarrow> (string \<rightharpoonup> 'v) \<Rightarrow> error option \<times> (string \<rightharpoonup> 'v)"

text \<open>
  The \<^verbatim>\<open>preferences\<close> struct: the value map of the embedded \<^verbatim>\<open>InMemoryPreferences\<close>,
  whether \<^verbatim>\<open>newPreferences\<close> registered the change listener, the two guards and the
  counter (a Go \<^verbatim>\<open>int\<close>, far from overflow within a window of 100ms), the number of
  goroutines that \<^verbatim>\<open>resetSuspend\<close> started and that still sleep, and the messages passed to
  \<^verbatim>\<open>fyne.LogError\<close>. The lock makes each locked section one step; a state is the store
  with the file system.
\<close>

record 'v preferences =
  prefValues :: "string \<rightharpoonup> 'v"
  listening :: bool
  loadingInProgress :: bool
  suspendChange :: bool
  numSuspendedChanges :: int
  pendingResets :: nat
  errorLog :: "string list"

text \<open>
  \<^verbatim>\<open>resetSuspend\<close> starts a goroutine and returns; the goroutine sleeps for 100ms and then
  runs \<open>resetSuspend_wakeup\<close> below.
\<close>

definition resetSuspend :: "'v preferences \<Rightarrow> 'v preferences" where
  "resetSuspend p = p\<lparr>pendingResets := pendingResets p + 1\<rparr>"

text \<open>
  Lines 75 to 86 of \<^verbatim>\<open>saveToFile\<close>: encode the values into the file, sync, and close
  (deferred, its error dropped). The encoder writes nothing when the values cannot be encoded.
\<close>

definition encodeValues ::
  "('v, 'b) env \<Rightarrow> os_file \<Rightarrow> (string \<rightharpoonup> 'v) \<Rightarrow> 'b filesystem \<Rightarrow> error option \<times> 'b filesystem" where
  "encodeValues env f vals fs =
     (case (case Encode env vals of
              Inl err \<Rightarrow> (Some err, fs)
            | Inr bytes \<Rightarrow> file_Write f bytes fs) of
        (err, fs1) \<Rightarrow>
          (case file_Sync f fs1 of
             (err2, fs2) \<Rightarrow> ((if err = None then err2 else err), snd (file_Close f fs2))))"

definition saveToFile ::
  "('v, 'b) env \<Rightarrow> string \<Rightarrow> 'v preferences \<times> 'b filesystem
   \<Rightarrow> error option \<times> 'v preferences \<times> 'b filesystem" where
  "saveToFile env path s =
     (let p = (fst s)\<lparr>suspendChange := True\<rparr> in
      case (case os_MkdirAll (Dir env path) (snd s) of
              (Some err, fs1) \<Rightarrow> (Some err, fs1)
            | (None, fs1) \<Rightarrow>
                (case os_Create path fs1 of
                   (Inl err, fs2) \<Rightarrow>
                     if \<not> IsExist err then (Some err, fs2)
                     else
                       (case os_Open path fs2 of
                          (Inl err, fs3) \<Rightarrow> (Some err, fs3)
                        | (Inr f, fs3) \<Rightarrow> encodeValues env f (prefValues p) fs3)
                 | (Inr f, fs2) \<Rightarrow> encodeValues env f (prefValues p) fs2)) of
        (err, fs) \<Rightarrow> (err, resetSuspend p, fs))"

definition save ::
  "('v, 'b) env \<Rightarrow> 'v preferences \<times> 'b filesystem \<Rightarrow> error option \<times> 'v preferences \<times> 'b filesystem" where
  "save env s = saveToFile env (storagePath env) s"

text \<open>The change listener that \<^verbatim>\<open>newPreferences\<close> registers (lines 139 to 155).\<close>

definition changeListener ::
  "('v, 'b) env \<Rightarrow> 'v preferences \<times> 'b filesystem \<Rightarrow> 'v preferences \<times> 'b filesystem" where
  "changeListener env s =
     (let shouldIgnoreChange = suspendChange (fst s) \<or> loadingInProgress (fst s);
          p = (if suspendChange (fst s)
               then (fst s)\<lparr>numSuspendedChanges := numSuspendedChanges (fst s) + 1\<rparr>
               else fst s)
      in if shouldIgnoreChange then (p, snd s)
         else
           (case save env (p, snd s) of
              (None, p', fs) \<Rightarrow> (p', fs)
            | (Some err, p', fs) \<Rightarrow>
                (p'\<lparr>errorLog := errorLog p' @ [''Failed on saving preferences'']\<rparr>, fs)))"

text \<open>
  Modelled from the spec: \<^verbatim>\<open>FireChange\<close> and \<^verbatim>\<open>WriteValues\<close> belong to
  \<^verbatim>\<open>internal.InMemoryPreferences\<close>, which is not among the sources. By the spec ``any
  mutation to the map fires a change notification'', the notification runs the handler, and
  the notifications fired by a load reach the handler while the loading flag is held: the
  listener has run when \<^verbatim>\<open>WriteValues\<close> returns. (\<^verbatim>\<open>ReadValues\<close> hands the map to
  its argument and changes nothing: \<open>saveToFile\<close> above reads the map directly.)
\<close>

definition FireChange ::
  "('v, 'b) env \<Rightarrow> 'v preferences \<times> 'b filesystem \<Rightarrow> 'v preferences \<times> 'b filesystem" where
  "FireChange env s = (if listening (fst s) then changeListener env s else s)"

definition WriteValues ::
  "('v, 'b) env \<Rightarrow> ((string \<rightharpoonup> 'v) \<Rightarrow> 'b filesystem \<Rightarrow> 'r \<times> (string \<rightharpoonup> 'v) \<times> 'b filesystem)
   \<Rightarrow> 'v preferences \<times> 'b filesystem \<Rightarrow> 'r \<times> 'v preferences \<times> 'b filesystem" where
  "WriteValues env fn s =
     (case fn (prefValues (fst s)) (snd s) of
        (r, vals, fs) \<Rightarrow> (r, FireChange env ((fst s)\<lparr>prefValues := vals\<rparr>, fs)))"

text \<open>The goroutine of \<^verbatim>\<open>resetSuspend\<close> after its sleep (lines 39 to 47).\<close>

definition resetSuspend_wakeup ::
  "('v, 'b) env \<Rightarrow> 'v preferences \<times> 'b filesystem \<Rightarrow> 'v preferences \<times> 'b filesystem" where
  "resetSuspend_wakeup env s =
     (let changes = numSuspendedChanges (fst s);
          p = (fst s)\<lparr>suspendChange := False, numSuspendedChanges := 0,
                      pendingResets := pendingResets (fst s) - 1\<rparr>
      in if changes > 0 then FireChange env (p, snd s) else (p, snd s))"

text \<open>
  The decoder reads the file and decodes what it read into the map; a failed read is the
  decoder's error.
\<close>

definition decodeValues ::
  "('v, 'b) env \<Rightarrow> os_file \<Rightarrow> (string \<rightharpoonup> 'v) \<Rightarrow> 'b filesystem
   \<Rightarrow> error option \<times> (string \<rightharpoonup> 'v) \<times> 'b filesystem" where
  "decodeValues env f vals fs =
     (case file_Read f fs of
        (Inl err, fs1) \<Rightarrow> (Some err, vals, fs1)
      | (Inr bytes, fs1) \<Rightarrow> (fst (Decode env bytes vals), snd (Decode env bytes vals), fs1))"

definition loadFromFile ::
  "('v, 'b) env \<Rightarrow> string \<Rightarrow> 'v preferences \<times> 'b filesystem
   \<Rightarrow> error option \<times> 'v preferences \<times> 'b filesystem" where
  "loadFromFile env path s =
     (case os_Open path (snd s) of
        (Inl err, fs1) \<Rightarrow>
          if IsNotExist err then
            (case os_MkdirAll (Dir env path) fs1 of
               (Some err, fs2) \<Rightarrow> (Some err, fst s, fs2)
             | (None, fs2) \<Rightarrow> (None, fst s, fs2))
          else (Some err, fst s, fs1)
      | (Inr f, fs1) \<Rightarrow>
          (case WriteValues env (decodeValues env f) ((fst s)\<lparr>loadingInProgress := True\<rparr>, fs1) of
             (err, p, fs2) \<Rightarrow>
               (case file_Close f fs2 of
                  (r, fs3) \<Rightarrow>
                    ((if r \<noteq> None \<and> err = None then r else err),
                     p\<lparr>loadingInProgress := False\<rparr>, fs3))))"

definition load ::
  "('v, 'b) env \<Rightarrow> 'v preferences \<times> 'b filesystem \<Rightarrow> 'v preferences \<times> 'b filesystem" where
  "load env s =
     (case loadFromFile env (storagePath env) s of
        (None, p, fs) \<Rightarrow> (p, fs)
      | (Some err, p, fs) \<Rightarrow> (p\<lparr>errorLog := errorLog p @ [''Preferences load error:'']\<rparr>, fs))"

text \<open>
  \<^verbatim>\<open>newPreferences\<close>: an empty store, which listens to its own changes unless the
  application has no unique ID. (\<^verbatim>\<open>watch\<close> is not among the sources.)
\<close>

definition newPreferences :: "string \<Rightarrow> 'v preferences" where
  "newPreferences uniqueID =
     \<lparr>prefValues = Map.empty, listening = (uniqueID \<noteq> []), loadingInProgress = False,
      suspendChange = False, numSuspendedChanges = 0, pendingResets = 0, errorLog = []\<rparr>"

subsection \<open>The JSON codec\<close>

text \<open>
  The values of the map are Go values of the interface type \<^verbatim>\<open>interface{}\<close>: the kinds
  that the store's setters put there (a bool, an int, a float64, a string, and slices of
  these) and the kinds that the decoder of \<^verbatim>\<open>encoding/json\<close> produces
  (\<^verbatim>\<open>nil\<close>, bool, float64, string, \<^verbatim>\<open>[]interface{}\<close> and
  \<^verbatim>\<open>map[string]interface{}\<close>). A float64 is modelled as a real number (no NaN, no
  infinity, which the encoder refuses, and no rounding), a string is valid UTF-8, and a
  slice is not \<^verbatim>\<open>nil\<close>.
\<close>

datatype go_value =
  GoNil
  | GoBool bool
  | GoInt int
  | GoFloat64 real
  | GoString string
  | GoBoolSlice "bool list"
  | GoIntSlice "int list"
  | GoFloat64Slice "real list"
  | GoStringSlice "string list"
  | GoSlice "go_value list"
  | GoMap "string \<Rightarrow> go_value option"

text \<open>
  A JSON document, as the encoder writes it and the decoder reads it: the text of a document
  is left out, a file that the JSON codec writes is the sequence of its documents. JSON has
  one kind of number and one kind of array.
\<close>

datatype json =
  JNull
  | JBool bool
  | JNumber real
  | JString string
  | JArray "json list"
  | JObject "string \<Rightarrow> json option"

text \<open>
  \<^verbatim>\<open>encoding/json\<close> is the Go standard library, outside the repository. Its encoder
  writes a bool as a JSON boolean, an int and a float64 as a JSON number, a string as a JSON
  string, every slice as a JSON array and a map as a JSON object. Its decoder, storing into
  an \<^verbatim>\<open>interface{}\<close>, makes a bool of a JSON boolean, a float64 of every JSON number, a
  string of a JSON string, a \<^verbatim>\<open>[]interface{}\<close> of a JSON array, a
  \<^verbatim>\<open>map[string]interface{}\<close> of a JSON object and \<^verbatim>\<open>nil\<close> of \<^verbatim>\<open>null\<close>.
\<close>

primrec marshal :: "go_value \<Rightarrow> json" where
  "marshal GoNil = JNull"
| "marshal (GoBool b) = JBool b"
| "marshal (GoInt n) = JNumber (of_int n)"
| "marshal (GoFloat64 x) = JNumber x"
| "marshal (GoString s) = JString s"
| "marshal (GoBoolSlice bs) = JArray (map JBool bs)"
| "marshal (GoIntSlice ns) = JArray (map (\<lambda>n. JNumber (of_int n)) ns)"
| "marshal (GoFloat64Slice xs) = JArray (map JNumber xs)"
| "marshal (GoStringSlice ss) = JArray (map JString ss)"
| "marshal (GoSlice vs) = JArray (map marshal vs)"
| "marshal (GoMap m) = JObject (\<lambda>k. map_option marshal (m k))"

primrec unmarshal :: "json \<Rightarrow> go_value" where
  "unmarshal JNull = GoNil"
| "unmarshal (JBool b) = GoBool b"
| "unmarshal (JNumber x) = GoFloat64 x"
| "unmarshal (JString s) = GoString s"
| "unmarshal (JArray js) = GoSlice (map unmarshal js)"
| "unmarshal (JObject m) = GoMap (\<lambda>k. map_option unmarshal (m k))"




subsection \<open>Example stores\<close>

text \<open>
  An environment for a store that holds at most the key \<open>theme\<close>: the encoder writes the
  value of the key (or an empty object), the decoder stores what it reads under the key.
  A file system with no file and no injected failure, one in which the configuration
  directory cannot be created, one in which the preferences file cannot be opened, and one
  that holds a saved preferences file. A store whose map holds the theme.
\<close>

definition exampleEnv :: "(string, char) env" where
  "exampleEnv =
     \<lparr>storagePath = ''/cfg/app/preferences.json'',
      Dir = (\<lambda>path. ''/cfg/app''),
      Encode = (\<lambda>vals. case vals ''theme'' of None \<Rightarrow> Inr ''{}'' | Some v \<Rightarrow> Inr v),
      Decode = (\<lambda>bytes vals.
                  if bytes = ''{}'' then (None, vals) else (None, vals(''theme'' \<mapsto> bytes)))\<rparr>"

definition emptyFs :: "char filesystem" where
  "emptyFs = \<lparr>files = Map.empty, dirs = {}, failing = (\<lambda>c. None), calls = []\<rparr>"

definition deniedFs :: "char filesystem" where
  "deniedFs =
     \<lparr>files = Map.empty, dirs = {},
      failing = (\<lambda>c. if c = MkdirAll ''/cfg/app'' then Some (ErrOther ''permission denied'')
                     else None),
      calls = []\<rparr>"

definition lockedFs :: "char filesystem" where
  "lockedFs =
     \<lparr>files = Map.empty, dirs = {},
      failing = (\<lambda>c. if c = Open ''/cfg/app/preferences.json''
                     then Some (ErrOther ''permission denied'') else None),
      calls = []\<rparr>"

definition darkStore :: "string preferences" where
  "darkStore = (newPreferences ''app'')\<lparr>prefValues := [''theme'' \<mapsto> ''dark'']\<rparr>"






section \<open>Properties of the theme colours\<close>

lemmas color_names =
  ColorRed_def ColorOrange_def ColorYellow_def ColorGreen_def ColorBlue_def
  ColorPurple_def ColorBrown_def ColorGray_def

lemma safeColorLookup_defined: "fst (safeColorLookup env n v errlog) \<noteq> None"
  by (simp add: safeColorLookup_def split: option.split)

lemma safeColorLookup_fallback:
  "Current env n v = None \<Longrightarrow>
   safeColorLookup env n v errlog =
     (Some (fallbackColor env), errlog @ [''Loaded theme returned nil color''])"
  by (simp add: safeColorLookup_def)

text \<open>
  Claim C10. \<^verbatim>\<open>PrimaryColorNamed\<close> and \<^verbatim>\<open>PrimaryForegroundColorNamed\<close> return a
  colour, never \<^verbatim>\<open>nil\<close>, for every string; for every name that is not one of red, orange,
  yellow, green, purple, brown and gray the first returns the blue
  \<^verbatim>\<open>NRGBA{0x29, 0x6f, 0xf6, 0xff}\<close> and the second \<^verbatim>\<open>colorLightBackground\<close>.
\<close>

theorem PrimaryColorNamed_unrecognised:
  assumes "name \<notin> {ColorRed, ColorOrange, ColorYellow, ColorGreen, ColorPurple, ColorBrown,
                    ColorGray}"
  shows "PrimaryColorNamed name = Some (NRGBA 0x29 0x6f 0xf6 0xff)
       \<and> PrimaryForegroundColorNamed name = Some colorLightBackground
       \<and> PrimaryColorNamed other \<noteq> None
       \<and> PrimaryForegroundColorNamed other \<noteq> None"
  using assms by (simp add: PrimaryColorNamed_def PrimaryForegroundColorNamed_def)

theorem PrimaryColorNamed_unrecognised_witness:
  "''pink'' \<notin> {ColorRed, ColorOrange, ColorYellow, ColorGreen, ColorPurple, ColorBrown, ColorGray}
   \<and> PrimaryColorNamed ''pink'' = Some (NRGBA 0x29 0x6f 0xf6 0xff)
   \<and> PrimaryForegroundColorNamed ''pink'' = Some (NRGBA 0xff 0xff 0xff 0xff)
   \<and> PrimaryColorNamed ColorBlue = Some (NRGBA 0x29 0x6f 0xf6 0xff)
   \<and> PrimaryColorNamed ColorRed \<noteq> None"
proof -
  have h: "''pink'' \<notin> {ColorRed, ColorOrange, ColorYellow, ColorGreen, ColorPurple, ColorBrown,
                        ColorGray}"
    by (simp add: color_names)
  have b: "ColorBlue \<notin> {ColorRed, ColorOrange, ColorYellow, ColorGreen, ColorPurple, ColorBrown,
                        ColorGray}"
    by (simp add: color_names)
  from PrimaryColorNamed_unrecognised [OF h, of ColorRed]
       PrimaryColorNamed_unrecognised [OF b, of ColorRed] h
  show ?thesis by (simp add: colorLightBackground_def)
qed

text \<open>
  Claim C6. The claim says that no theme colour accessor can return \<^verbatim>\<open>nil\<close>:
  an undefined colour is logged and replaced by the fallback. \<^verbatim>\<open>HeaderBackgroundColor\<close>
  (and likewise \<^verbatim>\<open>InputBackgroundColor\<close>, \<^verbatim>\<open>InputBorderColor\<close> and
  \<^verbatim>\<open>ColorForWidget\<close>) calls the theme directly instead of \<^verbatim>\<open>safeColorLookup\<close>: on a theme that returns \<^verbatim>\<open>nil\<close> it returns
  \<^verbatim>\<open>nil\<close> and logs nothing, while its sibling \<^verbatim>\<open>BackgroundColor\<close> returns the fallback
  and logs the error.
\<close>

theorem HeaderBackgroundColor_returns_nil:
  "HeaderBackgroundColor nilTheme [] = (None, [])
   \<and> InputBackgroundColor nilTheme [] = (None, [])
   \<and> InputBorderColor nilTheme [] = (None, [])
   \<and> ColorForWidget nilTheme (Current nilTheme) ColorNameBackground [] = (None, [])
   \<and> BackgroundColor nilTheme [] = (Some (NRGBA 0 0 0 0), [''Loaded theme returned nil color''])"
  by (simp add: HeaderBackgroundColor_def InputBackgroundColor_def InputBorderColor_def
      ColorForWidget_def BackgroundColor_def safeColorLookup_def nilTheme_def)

section \<open>Properties of the form layout\<close>

text \<open>
  The loops are unfolded by hand, one iteration at a time, in the proofs below.
\<close>

declare countRows_loop.simps [simp del] tableCellsSize_loop.simps [simp del]
  MinSize_loop.simps [simp del] Layout_loop.simps [simp del]

subsection \<open>Lists of even length: the loops compute the cells of the visible rows\<close>

lemma drop_pair:
  assumes "even (length xs)" "even i" "i < length xs"
  shows "Suc i < length xs" "drop i xs = xs ! i # xs ! Suc i # drop (Suc (Suc i)) xs"
proof -
  show s: "Suc i < length xs"
    using assms by (metis Suc_lessI even_Suc)
  show "drop i xs = xs ! i # xs ! Suc i # drop (Suc (Suc i)) xs"
    using s assms(3) by (simp add: Cons_nth_drop_Suc)
qed

lemma visibleRows_Cons:
  "visibleRows (a # b # rest) =
     (if \<not> Visible a \<and> \<not> Visible b then visibleRows rest else (a, b) # visibleRows rest)"
  by (simp add: visibleRows_def rowVisible_def)

lemma visibleRows_Nil [simp]: "visibleRows [] = []"
  by (simp add: visibleRows_def)

lemma countRows_loop_even:
  "even (length objects) \<Longrightarrow> even i \<Longrightarrow>
   countRows_loop objects i count = Inr (count + length (visibleRows (drop i objects)))"
proof (induction objects i count rule: countRows_loop.induct)
  case (1 objects i count)
  show ?case
  proof (cases "i < length objects")
    case False
    then show ?thesis by (simp add: countRows_loop.simps)
  next
    case True
    note d = drop_pair [OF "1.prems"(1) "1.prems"(2) True]
    have e: "even (i + formLayoutCols)" using "1.prems"(2) by (simp add: formLayoutCols_def)
    have dd: "drop (i + formLayoutCols) objects = drop (Suc (Suc i)) objects"
      by (simp add: formLayoutCols_def)
    show ?thesis
    proof (cases "Visible (objects ! i)")
      case v: True
      from "1.IH"(1) [OF True v "1.prems"(1) e] True v d show ?thesis
        by (subst countRows_loop.simps) (simp add: visibleRows_Cons dd)
    next
      case v: False
      show ?thesis
      proof (cases "Visible (objects ! (i + 1))")
        case w: True
        from "1.IH"(2) [OF True v _ w "1.prems"(1) e] True v w d show ?thesis
          by (subst countRows_loop.simps) (simp add: visibleRows_Cons dd)
      next
        case w: False
        from "1.IH"(3) [OF True v _ w "1.prems"(1) e] True v w d show ?thesis
          by (subst countRows_loop.simps) (simp add: visibleRows_Cons dd)
      qed
    qed
  qed
qed

lemma countRows_even:
  "even (length objects) \<Longrightarrow> countRows objects = Inr (length (visibleRows objects))"
  by (simp add: countRows_def countRows_loop_even)

lemma slice_pair:
  assumes "even (length xs)" "even i" "i < length xs"
  shows "slice xs i (i + 2) = Inr [xs ! i, xs ! Suc i]"
proof -
  from drop_pair [OF assms] show ?thesis
    by (simp add: slice_def)
qed

lemma tableCellsSize_loop_even:
  "even (length objects) \<Longrightarrow> even low \<Longrightarrow> high = low + 2 \<Longrightarrow> length table = rows \<Longrightarrow>
   row + length (visibleRows (drop low objects)) = rows \<Longrightarrow>
   tableCellsSize_loop ip objects rows row low high lm cm table =
     Inr (cellsOfRows ip (visibleRows (drop low objects)) row lm cm table)"
proof (induction ip objects rows row low high lm cm table rule: tableCellsSize_loop.induct)
  case (1 ip objects rows row low high lm cm table)
  show ?case
  proof (cases "row < rows")
    case False
    with "1.prems"(5) have "visibleRows (drop low objects) = []" by auto
    with False show ?thesis by (simp add: tableCellsSize_loop.simps)
  next
    case True
    with "1.prems"(5) have "visibleRows (drop low objects) \<noteq> []" by auto
    then have lt: "low < length objects" by (cases "low < length objects") auto
    note d = drop_pair [OF "1.prems"(1) "1.prems"(2) lt]
    have sl: "slice objects low high = Inr [objects ! low, objects ! Suc low]"
      using slice_pair [OF "1.prems"(1) "1.prems"(2) lt] "1.prems"(3) by simp
    have e: "even high" using "1.prems"(2,3) by simp
    have h: "high + formLayoutCols = high + 2" by (simp add: formLayoutCols_def)
    have dd: "drop high objects = drop (Suc (Suc low)) objects"
      using "1.prems"(3) by simp
    show ?thesis
    proof (cases "\<not> Visible (objects ! low) \<and> \<not> Visible (objects ! Suc low)")
      case inv: True
      have v: "visibleRows (drop low objects) = visibleRows (drop high objects)"
        using inv d(2) dd by (simp add: visibleRows_Cons)
      have "tableCellsSize_loop ip objects rows row high (high + formLayoutCols) lm cm table =
            Inr (cellsOfRows ip (visibleRows (drop high objects)) row lm cm table)"
        using "1.IH"(1) [OF True sl _ _ "1.prems"(1) e h "1.prems"(4)] inv "1.prems"(5) v
        by simp
      with True sl inv v show ?thesis
        by (subst tableCellsSize_loop.simps) simp
    next
      case vis: False
      have v: "visibleRows (drop low objects) =
               (objects ! low, objects ! Suc low) # visibleRows (drop high objects)"
        using vis d(2) dd by (simp add: visibleRows_Cons)
      have rt: "row < length table" using True "1.prems"(4) by simp
      have "tableCellsSize_loop ip objects rows (row + 1) high (high + formLayoutCols)
              (fyne_Max lm (Width (fst (rowCells ip (objects ! low) (objects ! Suc low)))))
              (fyne_Max cm (Width (snd (rowCells ip (objects ! low) (objects ! Suc low)))))
              (table[row := rowCells ip (objects ! low) (objects ! Suc low)]) =
            Inr (cellsOfRows ip (visibleRows (drop high objects)) (row + 1)
              (fyne_Max lm (Width (fst (rowCells ip (objects ! low) (objects ! Suc low)))))
              (fyne_Max cm (Width (snd (rowCells ip (objects ! low) (objects ! Suc low)))))
              (table[row := rowCells ip (objects ! low) (objects ! Suc low)]))"
        using "1.IH"(2) [OF True sl _ _ _ "1.prems"(1) e h] vis rt "1.prems"(4,5) v
        by simp
      with True sl vis v rt show ?thesis
        by (subst tableCellsSize_loop.simps) auto
    qed
  qed
qed

lemma visibleRows_dropInvisibleRows: "visibleRows (dropInvisibleRows objects) = visibleRows objects"
  by (induction objects rule: dropInvisibleRows.induct) (simp_all add: visibleRows_Cons)

lemma even_length_dropInvisibleRows:
  "even (length objects) \<Longrightarrow> even (length (dropInvisibleRows objects))"
  by (induction objects rule: dropInvisibleRows.induct) simp_all

lemma length_dropInvisibleRows:
  "even (length objects) \<Longrightarrow> length (dropInvisibleRows objects) = 2 * length (visibleRows objects)"
  by (induction objects rule: dropInvisibleRows.induct) (simp_all add: visibleRows_Cons)

lemma length_cellsOfRows:
  "length (snd (snd (cellsOfRows ip rs row lm cm table))) = length table"
  by (induction rs arbitrary: row lm cm table) simp_all

lemma tableCellsSize_even:
  assumes "even (length objects)"
  shows "tableCellsSize th objects w = Inr (cellsOfForm th objects w)"
proof -
  have "tableCellsSize_loop (InnerPadding th) objects (length (visibleRows objects)) 0 0 2 0 0
          (replicate (length (visibleRows objects)) (NewSize 0 0, NewSize 0 0)) =
        Inr (cellsOfRows (InnerPadding th) (visibleRows (drop 0 objects)) 0 0 0
          (replicate (length (visibleRows objects)) (NewSize 0 0, NewSize 0 0)))"
    by (rule tableCellsSize_loop_even) (use assms in simp_all)
  with assms show ?thesis
    by (simp add: tableCellsSize_def countRows_even cellsOfForm_def formLayoutCols_def
        split: prod.split)
qed

lemma length_table_cellsOfForm:
  "length (snd (snd (cellsOfForm th objects w))) = length (visibleRows objects)"
  using length_cellsOfRows [of "InnerPadding th" "visibleRows objects" 0 0 0
      "replicate (length (visibleRows objects)) (NewSize 0 0, NewSize 0 0)"]
  by (auto simp: cellsOfForm_def split: prod.split)

lemma cellsOfForm_dropInvisibleRows:
  "cellsOfForm th (dropInvisibleRows objects) w = cellsOfForm th objects w"
  by (simp add: cellsOfForm_def visibleRows_dropInvisibleRows)

lemma Visible_placeLabel [simp]: "Visible (placeLabel ip lw tr y obj) = Visible obj"
  by (simp add: placeLabel_def Move_def Resize_def)

lemma Visible_placeContent [simp]: "Visible (placeContent th lw cw tr y obj) = Visible obj"
  by (simp add: placeContent_def Move_def Resize_def)

lemma Layout_loop_even:
  "even (length objects) \<Longrightarrow> even i \<Longrightarrow>
   row + length (visibleRows (drop i objects)) \<le> length table \<Longrightarrow>
   Layout_loop th lw cw table objects i row y =
     Inr (take i objects @ layoutRows th lw cw table row y (drop i objects))"
proof (induction th lw cw table objects i row y rule: Layout_loop.induct)
  case (1 th lw cw table objects i row y)
  show ?case
  proof (cases "i < length objects")
    case False
    then show ?thesis by (simp add: Layout_loop.simps)
  next
    case True
    note d = drop_pair [OF "1.prems"(1) "1.prems"(2) True]
    have e: "even (i + formLayoutCols)" using "1.prems"(2) by (simp add: formLayoutCols_def)
    have dd: "drop (i + formLayoutCols) objects = drop (Suc (Suc i)) objects"
      by (simp add: formLayoutCols_def)
    have tk: "take (i + formLayoutCols) objects = take i objects @ [objects ! i, objects ! Suc i]"
      using d(1) True by (simp add: formLayoutCols_def take_Suc_conv_app_nth)
    show ?thesis
    proof (cases "\<not> Visible (objects ! i) \<and> \<not> Visible (objects ! Suc i)")
      case inv: True
      have v: "visibleRows (drop i objects) = visibleRows (drop (i + formLayoutCols) objects)"
        using inv d(2) dd by (simp add: visibleRows_Cons)
      have "Layout_loop th lw cw table objects (i + formLayoutCols) row y =
            Inr (take (i + formLayoutCols) objects
                 @ layoutRows th lw cw table row y (drop (i + formLayoutCols) objects))"
        using "1.IH"(1) [OF True _ "1.prems"(1) e] inv d(1) "1.prems"(3) v by simp
      with True inv d show ?thesis
        by (subst Layout_loop.simps) (simp add: tk dd)
    next
      case vis: False
      define y' where "y' = nextY (Padding th) table row y"
      define a' where "a' = placeLabel (InnerPadding th) lw (table ! row) y' (objects ! i)"
      define b' where "b' = placeContent th lw cw (table ! row) y' (objects ! Suc i)"
      define objects' where "objects' = objects[i := a', Suc i := b']"
      have v: "visibleRows (drop i objects) =
               (objects ! i, objects ! Suc i) # visibleRows (drop (Suc (Suc i)) objects)"
        using vis d(2) by (simp add: visibleRows_Cons)
      have rt: "row < length table" using "1.prems"(3) v by simp
      have rt': "row - Suc 0 < length table" using rt by simp
      have len: "length objects' = length objects" by (simp add: objects'_def)
      have dr: "drop (i + formLayoutCols) objects' = drop (Suc (Suc i)) objects"
        by (simp add: objects'_def formLayoutCols_def)
      have tk': "take (i + formLayoutCols) objects' = take i objects @ [a', b']"
        using d(1) True
        by (simp add: objects'_def formLayoutCols_def take_Suc_conv_app_nth nth_list_update)
      have "Layout_loop th lw cw table objects' (i + formLayoutCols) (row + 1) y' =
            Inr (take (i + formLayoutCols) objects'
                 @ layoutRows th lw cw table (row + 1) y' (drop (i + formLayoutCols) objects'))"
        using "1.IH"(2) [OF True _ _ _ _ e] vis d(1) rt rt' "1.prems"(1,3) v len dr
        unfolding objects'_def a'_def b'_def y'_def
        by simp
      then have "Layout_loop th lw cw table objects' (i + formLayoutCols) (row + 1) y' =
            Inr (take i objects @ layoutRows th lw cw table row y (drop i objects))"
        using vis d(2) by (auto simp add: tk' dr a'_def b'_def y'_def)
      with True vis d(1) rt show ?thesis
        unfolding objects'_def a'_def b'_def y'_def
        by (subst Layout_loop.simps) auto
    qed
  qed
qed

lemma length_layoutRows [simp]: "length (layoutRows th lw cw table row y objects) = length objects"
  by (induction th lw cw table row y objects rule: layoutRows.induct) simp_all

lemma dropInvisibleRows_layoutRows:
  "dropInvisibleRows (layoutRows th lw cw table row y objects) =
   layoutRows th lw cw table row y (dropInvisibleRows objects)"
  by (induction th lw cw table row y objects rule: layoutRows.induct) simp_all

lemma layoutRows_invisible:
  "2 * k + 1 < length objects \<Longrightarrow> \<not> Visible (objects ! (2 * k)) \<Longrightarrow>
   \<not> Visible (objects ! (2 * k + 1)) \<Longrightarrow>
   layoutRows th lw cw table row y objects ! (2 * k) = objects ! (2 * k) \<and>
   layoutRows th lw cw table row y objects ! (2 * k + 1) = objects ! (2 * k + 1)"
proof (induction th lw cw table row y objects arbitrary: k rule: layoutRows.induct)
  case (1 th lw cw table row y a b rest)
  show ?case
  proof (cases k)
    case 0
    with "1.prems" show ?thesis by simp
  next
    case (Suc j)
    with "1.prems" have p: "2 * j + 1 < length rest" "\<not> Visible (rest ! (2 * j))"
      "\<not> Visible (rest ! (2 * j + 1))"
      by simp_all
    show ?thesis
    proof (cases "\<not> Visible a \<and> \<not> Visible b")
      case True
      from "1.IH"(1) [OF True p] True Suc show ?thesis by simp
    next
      case False
      from "1.IH"(2) [OF False p] False Suc show ?thesis by auto
    qed
  qed
qed simp_all

lemma Layout_even:
  assumes "even (length objects)"
  shows "Layout th objects sz =
         Inr (layoutRows th (fst (cellsOfForm th objects (Width sz)))
                (fst (snd (cellsOfForm th objects (Width sz))))
                (snd (snd (cellsOfForm th objects (Width sz)))) 0 0 objects)"
proof -
  obtain lw cw table where c: "cellsOfForm th objects (Width sz) = (lw, cw, table)"
    by (cases "cellsOfForm th objects (Width sz)") auto
  have "length table = length (visibleRows objects)"
    using length_table_cellsOfForm [of th objects "Width sz"] c by simp
  then have "Layout_loop th lw cw table objects 0 0 0 =
             Inr (take 0 objects @ layoutRows th lw cw table 0 0 (drop 0 objects))"
    by (intro Layout_loop_even) (use assms in simp_all)
  then show ?thesis
    by (simp add: Layout_def tableCellsSize_even [OF assms] c)
qed

text \<open>
  Claim C9. On every object list of even length, the rows whose label and content are both
  invisible are excluded from the size computation and from the positioning: the row count is
  the number of visible rows; \<^verbatim>\<open>countRows\<close>, \<^verbatim>\<open>tableCellsSize\<close> (column widths and
  table) and \<^verbatim>\<open>MinSize\<close> return, without a panic, what they return on the list with these
  rows removed; \<^verbatim>\<open>Layout\<close> returns without a panic, leaves both objects of every such row
  as they were (neither moved nor resized), and places the objects of the other rows exactly
  where it places them when the invisible rows are not in the list at all, so that these rows
  take no vertical space.
\<close>

theorem invisible_rows_excluded:
  assumes "even (length objects)"
  shows "countRows objects = Inr (length (visibleRows objects))
       \<and> countRows (dropInvisibleRows objects) = countRows objects
       \<and> (\<exists>cells. tableCellsSize th objects w = Inr cells
            \<and> tableCellsSize th (dropInvisibleRows objects) w = Inr cells)
       \<and> (\<exists>m. MinSize th objects = Inr m \<and> MinSize th (dropInvisibleRows objects) = Inr m)
       \<and> (\<exists>objects'. Layout th objects sz = Inr objects'
            \<and> length objects' = length objects
            \<and> (\<forall>k. 2 * k + 1 < length objects \<and> \<not> Visible (objects ! (2 * k))
                    \<and> \<not> Visible (objects ! (2 * k + 1))
                  \<longrightarrow> objects' ! (2 * k) = objects ! (2 * k)
                    \<and> objects' ! (2 * k + 1) = objects ! (2 * k + 1))
            \<and> Layout th (dropInvisibleRows objects) sz = Inr (dropInvisibleRows objects'))"
proof -
  note ev = even_length_dropInvisibleRows [OF assms]
  have c1: "countRows objects = Inr (length (visibleRows objects))"
    by (rule countRows_even [OF assms])
  have c2: "countRows (dropInvisibleRows objects) = countRows objects"
    by (simp add: countRows_even [OF ev] c1 visibleRows_dropInvisibleRows)
  have t: "tableCellsSize th (dropInvisibleRows objects) x = tableCellsSize th objects x" for x
    by (simp add: tableCellsSize_even [OF ev] tableCellsSize_even [OF assms]
        cellsOfForm_dropInvisibleRows)
  have c3: "\<exists>cells. tableCellsSize th objects w = Inr cells
            \<and> tableCellsSize th (dropInvisibleRows objects) w = Inr cells"
    by (rule exI [of _ "cellsOfForm th objects w"]) (simp add: t tableCellsSize_even [OF assms])
  have m: "MinSize th (dropInvisibleRows objects) = MinSize th objects"
    by (simp add: MinSize_def t)
  have "\<exists>m. MinSize th objects = Inr m"
    by (simp add: MinSize_def tableCellsSize_even [OF assms] split: prod.split)
  with m have c4: "\<exists>m. MinSize th objects = Inr m \<and> MinSize th (dropInvisibleRows objects) = Inr m"
    by auto
  define lw where "lw = fst (cellsOfForm th objects (Width sz))"
  define cw where "cw = fst (snd (cellsOfForm th objects (Width sz)))"
  define table where "table = snd (snd (cellsOfForm th objects (Width sz)))"
  define objects' where "objects' = layoutRows th lw cw table 0 0 objects"
  have l1: "Layout th objects sz = Inr objects'"
    by (simp add: Layout_even [OF assms] objects'_def lw_def cw_def table_def)
  have l2: "length objects' = length objects"
    by (simp add: objects'_def)
  have l3: "\<forall>k. 2 * k + 1 < length objects \<and> \<not> Visible (objects ! (2 * k))
                    \<and> \<not> Visible (objects ! (2 * k + 1))
                  \<longrightarrow> objects' ! (2 * k) = objects ! (2 * k)
                    \<and> objects' ! (2 * k + 1) = objects ! (2 * k + 1)"
    unfolding objects'_def using layoutRows_invisible by blast
  have l4: "Layout th (dropInvisibleRows objects) sz = Inr (dropInvisibleRows objects')"
    by (simp add: Layout_even [OF ev] cellsOfForm_dropInvisibleRows objects'_def lw_def cw_def
        table_def dropInvisibleRows_layoutRows)
  from c1 c2 c3 c4 l1 l2 l3 l4 show ?thesis by blast
qed

theorem invisible_rows_excluded_witness:
  "even (length hiddenRowForm)
   \<and> countRows hiddenRowForm = Inr 2
   \<and> countRows (dropInvisibleRows hiddenRowForm) = Inr 2
   \<and> dropInvisibleRows hiddenRowForm = twoRowForm
   \<and> MinSize exampleTheme hiddenRowForm = MinSize exampleTheme twoRowForm
   \<and> projr (Layout exampleTheme hiddenRowForm (NewSize 100 100)) ! 2 = widget False 7 7
   \<and> projr (Layout exampleTheme hiddenRowForm (NewSize 100 100)) ! 3 = widget False 7 7
   \<and> Layout exampleTheme twoRowForm (NewSize 100 100) =
       Inr (dropInvisibleRows (projr (Layout exampleTheme hiddenRowForm (NewSize 100 100))))"
proof -
  have h: "even (length hiddenRowForm)" by (simp add: hiddenRowForm_def)
  have d: "dropInvisibleRows hiddenRowForm = twoRowForm"
    by (simp add: hiddenRowForm_def twoRowForm_def widget_def)
  have n: "length (visibleRows hiddenRowForm) = 2"
    by (simp add: hiddenRowForm_def visibleRows_Cons widget_def)
  have i: "2 * 1 + 1 < length hiddenRowForm" "\<not> Visible (hiddenRowForm ! (2 * 1))"
    "\<not> Visible (hiddenRowForm ! (2 * 1 + 1))" "hiddenRowForm ! (2 * 1) = widget False 7 7"
    "hiddenRowForm ! (2 * 1 + 1) = widget False 7 7"
    by (simp_all add: hiddenRowForm_def widget_def)
  from invisible_rows_excluded [OF h, of exampleTheme 0 "NewSize 100 100"]
  obtain objects' where c: "countRows hiddenRowForm = Inr (length (visibleRows hiddenRowForm))"
    "countRows (dropInvisibleRows hiddenRowForm) = countRows hiddenRowForm"
    "\<exists>m. MinSize exampleTheme hiddenRowForm = Inr m
           \<and> MinSize exampleTheme (dropInvisibleRows hiddenRowForm) = Inr m"
    and l: "Layout exampleTheme hiddenRowForm (NewSize 100 100) = Inr objects'"
    and u: "\<forall>k. 2 * k + 1 < length hiddenRowForm \<and> \<not> Visible (hiddenRowForm ! (2 * k))
                    \<and> \<not> Visible (hiddenRowForm ! (2 * k + 1))
                  \<longrightarrow> objects' ! (2 * k) = hiddenRowForm ! (2 * k)
                    \<and> objects' ! (2 * k + 1) = hiddenRowForm ! (2 * k + 1)"
    and r: "Layout exampleTheme (dropInvisibleRows hiddenRowForm) (NewSize 100 100) =
            Inr (dropInvisibleRows objects')"
    by blast
  from u i have "objects' ! (2 * 1) = widget False 7 7" "objects' ! (2 * 1 + 1) = widget False 7 7"
    by metis+
  then have "objects' ! 2 = widget False 7 7" "objects' ! 3 = widget False 7 7"
    by simp_all
  with h d n c l r show ?thesis by auto
qed

subsection \<open>The two-row example\<close>

lemma MinSize_loop_two:
  "MinSize_loop padding [r1, r2] 0 m False =
     m\<lparr>Height := Height m + Height (fst r1) + Height (fst r2) + padding\<rparr>"
  by (simp add: MinSize_loop.simps)

text \<open>
  Claim C5, as amended. For a form of two visible rows whose (label, content) minimum heights
  are (10, 20) and (30, 5), each row of the table has the height of the larger of its two
  cells, 20 and 30, and \<^verbatim>\<open>MinSize\<close> returns the total height 20 + 30 + padding. (The claim
  says 10 + 30 + padding, which is not the sum of the two maxima.)
\<close>

theorem MinSize_two_rows:
  assumes "Visible l1 \<or> Visible c1" and "Visible l2 \<or> Visible c2"
    and "Height (ObjMinSize l1) = 10" and "Height (ObjMinSize c1) = 20"
    and "Height (ObjMinSize l2) = 30" and "Height (ObjMinSize c2) = 5"
  shows "\<exists>m lw cw r1 r2.
           MinSize th [l1, c1, l2, c2] = Inr m
         \<and> Height m = 20 + 30 + Padding th
         \<and> tableCellsSize th [l1, c1, l2, c2] 0 = Inr (lw, cw, [r1, r2])
         \<and> Height (fst r1) = max 10 20 \<and> Height (snd r1) = max 10 20
         \<and> Height (fst r2) = max 30 5 \<and> Height (snd r2) = max 30 5"
proof -
  let ?ip = "InnerPadding th"
  let ?r1 = "rowCells ?ip l1 c1"
  let ?r2 = "rowCells ?ip l2 c2"
  have v: "visibleRows [l1, c1, l2, c2] = [(l1, c1), (l2, c2)]"
    using assms(1,2) by (auto simp: visibleRows_Cons)
  obtain lw cw where t: "tableCellsSize th [l1, c1, l2, c2] 0 = Inr (lw, cw, [?r1, ?r2])"
    by (simp add: tableCellsSize_even cellsOfForm_def v)
  have h1: "Height (fst ?r1) = 20" "Height (snd ?r1) = 20"
    using assms(3,4) by (simp_all add: rowCells_def fyne_Max_def Let_def)
  have h2: "Height (fst ?r2) = 30" "Height (snd ?r2) = 30"
    using assms(5,6) by (simp_all add: rowCells_def fyne_Max_def Let_def)
  have m: "MinSize th [l1, c1, l2, c2] =
           Inr \<lparr>Width = lw + cw + Padding th, Height = 20 + 30 + Padding th\<rparr>"
    by (simp add: MinSize_def t MinSize_loop_two h1 h2 NewSize_def)
  from m t h1 h2 show ?thesis by auto
qed

theorem MinSize_two_rows_witness:
  "twoRowForm = [widget True 1 10, widget True 1 20, widget True 1 30, widget True 1 5]
   \<and> Height (ObjMinSize (widget True 1 10)) = 10 \<and> Height (ObjMinSize (widget True 1 20)) = 20
   \<and> Height (ObjMinSize (widget True 1 30)) = 30 \<and> Height (ObjMinSize (widget True 1 5)) = 5
   \<and> MinSize exampleTheme twoRowForm = Inr \<lparr>Width = 6, Height = 54\<rparr>
   \<and> tableCellsSize exampleTheme twoRowForm 0 =
       Inr (1, 1, [(NewSize 1 20, NewSize 1 20), (NewSize 1 30, NewSize 1 30)])"
proof -
  have hs: "Height (ObjMinSize (widget True 1 10)) = 10"
    "Height (ObjMinSize (widget True 1 20)) = 20"
    "Height (ObjMinSize (widget True 1 30)) = 30" "Height (ObjMinSize (widget True 1 5)) = 5"
    "Visible (widget True 1 10) \<or> Visible (widget True 1 20)"
    "Visible (widget True 1 30) \<or> Visible (widget True 1 5)"
    by (simp_all add: widget_def NewSize_def)
  have t: "tableCellsSize exampleTheme twoRowForm 0 =
       Inr (1, 1, [(NewSize 1 20, NewSize 1 20), (NewSize 1 30, NewSize 1 30)])"
    by (simp add: twoRowForm_def tableCellsSize_even cellsOfForm_def visibleRows_Cons
        widget_def rowCells_def fyne_Max_def NewSize_def exampleTheme_def Let_def)
  from MinSize_two_rows [OF hs(5,6) hs(1-4), of exampleTheme]
  obtain m where "MinSize exampleTheme twoRowForm = Inr m"
    and "Height m = 20 + 30 + Padding exampleTheme"
    by (auto simp: twoRowForm_def)
  moreover have "Width (projr (MinSize exampleTheme twoRowForm)) = 6"
    unfolding MinSize_def t by (simp add: MinSize_loop_two NewSize_def exampleTheme_def)
  ultimately have "MinSize exampleTheme twoRowForm = Inr \<lparr>Width = 6, Height = 54\<rparr>"
    by (cases m) (simp add: exampleTheme_def)
  with t hs show ?thesis by (simp add: twoRowForm_def)
qed

text \<open>
  Claim C5 as stated fails: with the padding 4 the minimum height of the example form is
  54 = 20 + 30 + 4, not 10 + 30 + 4.
\<close>

theorem MinSize_two_rows_counterexample:
  "MinSize exampleTheme twoRowForm = Inr \<lparr>Width = 6, Height = 54\<rparr>
   \<and> (54 :: real) \<noteq> 10 + 30 + Padding exampleTheme"
  by (simp add: twoRowForm_def MinSize_def tableCellsSize_even cellsOfForm_def visibleRows_Cons
      widget_def rowCells_def fyne_Max_def NewSize_def exampleTheme_def MinSize_loop_two Let_def)

subsection \<open>Lists of odd length\<close>

text \<open>
  Claim C2. The claim says that on every object list of odd length the size computation
  returns without an index-out-of-range failure, with zero column widths and a zero table.
  \<^verbatim>\<open>tableCellsSize\<close> calls \<^verbatim>\<open>countRows\<close> before it tests the length, and
  \<^verbatim>\<open>countRows\<close> reads \<^verbatim>\<open>objects[i+1]\<close> without the bounds check that \<^verbatim>\<open>Layout\<close>
  makes: on the list of one invisible object it reads \<^verbatim>\<open>objects[1]\<close> and panics, and so
  do \<^verbatim>\<open>tableCellsSize\<close>, \<^verbatim>\<open>MinSize\<close> and \<^verbatim>\<open>Layout\<close>.
\<close>

theorem countRows_odd_panics:
  "countRows [widget False 1 1] = Inl IndexOutOfRange
   \<and> tableCellsSize th [widget False 1 1] w = Inl IndexOutOfRange
   \<and> MinSize th [widget False 1 1] = Inl IndexOutOfRange
   \<and> Layout th [widget False 1 1] sz = Inl IndexOutOfRange"
  by (simp add: countRows_def countRows_loop.simps widget_def tableCellsSize_def MinSize_def
      Layout_def)

text \<open>
  On a list of odd length the outcome depends on the last object alone: when it is visible
  the result is the one the claim describes, and when it is invisible the read past the end
  panics.
\<close>

lemma countRows_loop_odd:
  "odd (length objects) \<Longrightarrow> even i \<Longrightarrow> i < length objects \<Longrightarrow>
   countRows_loop objects i count =
     (if Visible (last objects) then Inr (count + length (visibleRows (drop i objects)) + 1)
      else Inl IndexOutOfRange)"
proof (induction objects i count rule: countRows_loop.induct)
  case (1 objects i count)
  note lt = "1.prems"(3)
  have e: "even (i + formLayoutCols)" using "1.prems"(2) by (simp add: formLayoutCols_def)
  show ?case
  proof (cases "Suc i < length objects")
    case False
    with lt have l: "length objects = Suc i" by simp
    then have la: "last objects = objects ! i"
      by (metis diff_Suc_1 last_conv_nth length_0_conv nat.distinct(1))
    have dr: "drop i objects = [objects ! i]"
      using l by (metis Cons_nth_drop_Suc drop_all lessI order_refl)
    have st: "countRows_loop objects (i + formLayoutCols) (count + 1) = Inr (count + 1)"
      using l by (subst countRows_loop.simps) (simp add: formLayoutCols_def)
    show ?thesis
      using l la dr st
      by (subst countRows_loop.simps) (simp add: visibleRows_def)
  next
    case True
    have d: "drop i objects = objects ! i # objects ! Suc i # drop (Suc (Suc i)) objects"
      using True lt by (simp add: Cons_nth_drop_Suc)
    have dd: "drop (i + formLayoutCols) objects = drop (Suc (Suc i)) objects"
      by (simp add: formLayoutCols_def)
    have lt2: "i + formLayoutCols < length objects"
      using True "1.prems"(1,2) by (metis Suc_lessI add_2_eq_Suc' even_Suc formLayoutCols_def)
    show ?thesis
    proof (cases "Visible (objects ! i)")
      case v: True
      from "1.IH"(1) [OF lt v "1.prems"(1) e lt2] lt v d show ?thesis
        by (subst countRows_loop.simps) (simp add: visibleRows_Cons dd)
    next
      case v: False
      show ?thesis
      proof (cases "Visible (objects ! (i + 1))")
        case w: True
        from "1.IH"(2) [OF lt v _ w "1.prems"(1) e lt2] lt True v w d show ?thesis
          by (subst countRows_loop.simps) (simp add: visibleRows_Cons dd)
      next
        case w: False
        from "1.IH"(3) [OF lt v _ w "1.prems"(1) e lt2] lt True v w d show ?thesis
          by (subst countRows_loop.simps) (simp add: visibleRows_Cons dd)
      qed
    qed
  qed
qed

lemma countRows_odd:
  assumes "odd (length objects)"
  shows "countRows objects =
     (if Visible (last objects) then Inr (Suc (length (visibleRows objects)))
      else Inl IndexOutOfRange)"
proof -
  from assms have "0 < length objects" by (cases objects) auto
  from countRows_loop_odd [OF assms _ this, of 0] show ?thesis
    by (simp add: countRows_def)
qed

lemma tableCellsSize_odd:
  assumes "odd (length objects)"
  shows "tableCellsSize th objects w =
     (if Visible (last objects)
      then Inr (0, 0, replicate (Suc (length (visibleRows objects))) (NewSize 0 0, NewSize 0 0))
      else Inl IndexOutOfRange)"
  using assms by (simp add: tableCellsSize_def countRows_odd formLayoutCols_def odd_iff_mod_2_eq_one)

text \<open>
  With a visible last object \<^verbatim>\<open>MinSize\<close> then adds the padding to the zero widths and
  between the zero rows: the minimum size of a single visible object is as wide as the padding.
\<close>

lemma MinSize_single_visible:
  "MinSize th [widget True w h] = Inr \<lparr>Width = Padding th, Height = 0\<rparr>"
  by (simp add: MinSize_def tableCellsSize_odd widget_def visibleRows_def MinSize_loop.simps
      NewSize_def)


section \<open>Properties of the preferences store\<close>

subsection \<open>What each call does to the file system\<close>

lemma called_simps [simp]:
  "files (called c fs) = files fs" "dirs (called c fs) = dirs fs"
  "failing (called c fs) = failing fs" "calls (called c fs) = calls fs @ [c]"
  by (simp_all add: called_def)

lemma fileWrites_called [simp]:
  "fileWrites (called c fs) = fileWrites fs + (if isWrite c then 1 else 0)"
  by (simp add: fileWrites_def)

lemma fileWrites_update [simp]:
  "fileWrites (fs\<lparr>files := x\<rparr>) = fileWrites fs" "fileWrites (fs\<lparr>dirs := y\<rparr>) = fileWrites fs"
  by (simp_all add: fileWrites_def)

lemma os_MkdirAll_frame:
  assumes "os_MkdirAll dir fs = (err, fs')"
  shows "files fs' = files fs" "failing fs' = failing fs" "fileWrites fs' = fileWrites fs"
    "calls fs' = calls fs @ [MkdirAll dir]"
  using assms by (auto simp: os_MkdirAll_def split: option.splits)

lemma os_Create_frame:
  assumes "os_Create path fs = (r, fs')"
  shows "failing fs' = failing fs" "fileWrites fs' = fileWrites fs"
    "calls fs' = calls fs @ [Create path]"
    "r = Inr f \<Longrightarrow> Name f = path \<and> writable f \<and> files fs' path = Some []"
    "r = Inl err \<Longrightarrow> fs' = called (Create path) fs"
  using assms by (auto simp: os_Create_def split: option.splits)

lemma os_Open_frame:
  assumes "os_Open path fs = (r, fs')"
  shows "fs' = called (Open path) fs" "r = Inr f \<Longrightarrow> Name f = path \<and> \<not> writable f"
  using assms by (auto simp: os_Open_def split: option.splits)

lemma encodeValues_frame:
  assumes "encodeValues env f vals fs = (err, fs')"
  shows "failing fs' = failing fs" "fileWrites fs' \<le> fileWrites fs + 1"
    "dirs fs' = dirs fs"
    "\<exists>rest. calls fs' = calls fs @ rest"
    "err = None \<Longrightarrow> fileWrites fs' = fileWrites fs + 1 \<and> writable f
        \<and> (\<exists>bytes. Encode env vals = Inr bytes
             \<and> files fs' = (files fs)(Name f \<mapsto>
                  (case files fs (Name f) of None \<Rightarrow> bytes | Some old \<Rightarrow> old @ bytes)))"
  using assms
  by (auto simp: encodeValues_def file_Write_def file_Sync_def file_Close_def
      split: sum.splits option.splits if_splits prod.splits)

text \<open>
  Every return path of \<^verbatim>\<open>saveToFile\<close> has set the suspend guard and started one reset
  goroutine; it writes to the file at most once, and exactly once when it returns \<^verbatim>\<open>nil\<close>,
  in which case the file holds the encoded values.
\<close>

lemma saveToFile_frame:
  assumes "saveToFile env path (p, fs) = (err, p', fs')"
  shows "p' = p\<lparr>suspendChange := True, pendingResets := pendingResets p + 1\<rparr>"
    "failing fs' = failing fs"
    "fileWrites fs' \<le> fileWrites fs + 1"
    "\<exists>rest. calls fs' = calls fs @ MkdirAll (Dir env path) # rest"
    "err = None \<Longrightarrow> fileWrites fs' = fileWrites fs + 1
        \<and> (\<exists>bytes. Encode env (prefValues p) = Inr bytes \<and> files fs' path = Some bytes)"
proof -
  obtain e1 fs1 where m: "os_MkdirAll (Dir env path) fs = (e1, fs1)"
    by (cases "os_MkdirAll (Dir env path) fs") auto
  note mf = os_MkdirAll_frame [OF m]
  obtain r2 fs2 where c: "os_Create path fs1 = (r2, fs2)"
    by (cases "os_Create path fs1") auto
  note cf = os_Create_frame [OF c]
  obtain r3 fs3 where ob: "os_Open path fs2 = (r3, fs3)"
    by (cases "os_Open path fs2") auto
  note opf = os_Open_frame [OF ob]
  show "p' = p\<lparr>suspendChange := True, pendingResets := pendingResets p + 1\<rparr>"
    using assms
    by (auto simp: saveToFile_def resetSuspend_def Let_def
        split: prod.splits option.splits sum.splits if_splits)
  consider (mk) err1 where "e1 = Some err1"
    | (cr) err2 where "e1 = None" "r2 = Inl err2" "\<not> IsExist err2"
    | (op) err2 err3 where "e1 = None" "r2 = Inl err2" "IsExist err2" "r3 = Inl err3"
    | (ro) err2 f where "e1 = None" "r2 = Inl err2" "IsExist err2" "r3 = Inr f"
    | (ok) f where "e1 = None" "r2 = Inr f"
    by (cases e1; cases r2; cases r3) auto
  then have "failing fs' = failing fs \<and> fileWrites fs' \<le> fileWrites fs + 1
      \<and> (\<exists>rest. calls fs' = calls fs @ MkdirAll (Dir env path) # rest)
      \<and> (err = None \<longrightarrow> fileWrites fs' = fileWrites fs + 1
        \<and> (\<exists>bytes. Encode env (prefValues p) = Inr bytes \<and> files fs' path = Some bytes))"
  proof cases
    case mk
    with assms m mf show ?thesis by (auto simp: saveToFile_def Let_def)
  next
    case cr
    with assms m c mf cf show ?thesis by (auto simp: saveToFile_def Let_def)
  next
    case op
    with assms m c ob mf cf opf show ?thesis by (auto simp: saveToFile_def Let_def)
  next
    case ro
    from ro opf(2) [of f] have nw: "\<not> writable f" by simp
    from ro assms m c ob have e: "encodeValues env f (prefValues p) fs3 = (err, fs')"
      by (auto simp: saveToFile_def Let_def split: prod.splits)
    note ef = encodeValues_frame [OF e]
    from ef(5) nw have "err \<noteq> None" by auto
    moreover from ef(4) obtain rest where "calls fs' = calls fs3 @ rest" by auto
    ultimately show ?thesis
      using ef(1,2) mf cf(1,2,3) opf(1) by auto
  next
    case ok
    from ok assms m c have e: "encodeValues env f (prefValues p) fs2 = (err, fs')"
      by (auto simp: saveToFile_def Let_def split: prod.splits)
    note ef = encodeValues_frame [OF e]
    from cf(4) [of f] ok have fo: "Name f = path" "files fs2 path = Some []" by auto
    from ef(4) obtain rest where "calls fs' = calls fs2 @ rest" by auto
    then show ?thesis
      using ef(1,2,5) mf cf(1,2,3) fo by auto
  qed
  then show "failing fs' = failing fs" "fileWrites fs' \<le> fileWrites fs + 1"
    "\<exists>rest. calls fs' = calls fs @ MkdirAll (Dir env path) # rest"
    "err = None \<Longrightarrow> fileWrites fs' = fileWrites fs + 1
        \<and> (\<exists>bytes. Encode env (prefValues p) = Inr bytes \<and> files fs' path = Some bytes)"
    by auto
qed

subsection \<open>The change listener\<close>

lemma changeListener_suspended:
  "suspendChange p \<Longrightarrow>
   changeListener env (p, fs) = (p\<lparr>numSuspendedChanges := numSuspendedChanges p + 1\<rparr>, fs)"
  by (simp add: changeListener_def)

lemma changeListener_loading:
  "\<not> suspendChange p \<Longrightarrow> loadingInProgress p \<Longrightarrow> changeListener env (p, fs) = (p, fs)"
  by (simp add: changeListener_def)

lemma changeListener_saves:
  assumes "\<not> suspendChange p" and "\<not> loadingInProgress p"
    and "save env (p, fs) = (err, p', fs')"
  shows "changeListener env (p, fs) =
           ((if err = None then p'
             else p'\<lparr>errorLog := errorLog p' @ [''Failed on saving preferences'']\<rparr>), fs')"
  using assms by (cases err) (simp_all add: changeListener_def)

text \<open>
  Claim C3, as amended. In the change listener, whenever \<^verbatim>\<open>suspendChange\<close> is active the
  save is skipped and \<^verbatim>\<open>numSuspendedChanges\<close> is incremented; whenever only
  \<^verbatim>\<open>loadingInProgress\<close> is active the save is skipped and the counter is left as it is;
  whenever neither guard is active a save is triggered at once (its first call creates the
  directory of the storage path), the suspend guard is set and its reset is scheduled.
\<close>

theorem changeListener_guards:
  "(suspendChange p \<longrightarrow>
      changeListener env (p, fs) = (p\<lparr>numSuspendedChanges := numSuspendedChanges p + 1\<rparr>, fs))
   \<and> (\<not> suspendChange p \<and> loadingInProgress p \<longrightarrow> changeListener env (p, fs) = (p, fs))
   \<and> (\<not> suspendChange p \<and> \<not> loadingInProgress p \<longrightarrow>
        (\<exists>err p' fs' rest.
           save env (p, fs) = (err, p', fs')
         \<and> changeListener env (p, fs) =
             ((if err = None then p'
               else p'\<lparr>errorLog := errorLog p' @ [''Failed on saving preferences'']\<rparr>), fs')
         \<and> p' = p\<lparr>suspendChange := True, pendingResets := pendingResets p + 1\<rparr>
         \<and> calls fs' = calls fs @ MkdirAll (Dir env (storagePath env)) # rest))"
proof (intro conjI impI)
  assume "suspendChange p"
  then show "changeListener env (p, fs) =
      (p\<lparr>numSuspendedChanges := numSuspendedChanges p + 1\<rparr>, fs)"
    by (rule changeListener_suspended)
next
  assume "\<not> suspendChange p \<and> loadingInProgress p"
  then show "changeListener env (p, fs) = (p, fs)"
    by (simp add: changeListener_loading)
next
  assume a: "\<not> suspendChange p \<and> \<not> loadingInProgress p"
  obtain err p' fs' where s: "save env (p, fs) = (err, p', fs')"
    by (cases "save env (p, fs)") auto
  then have sf: "saveToFile env (storagePath env) (p, fs) = (err, p', fs')"
    by (simp add: save_def)
  from saveToFile_frame(4) [OF sf] obtain rest
    where "calls fs' = calls fs @ MkdirAll (Dir env (storagePath env)) # rest" by auto
  with s saveToFile_frame(1) [OF sf] changeListener_saves [OF _ _ s] a
  show "\<exists>err p' fs' rest.
           save env (p, fs) = (err, p', fs')
         \<and> changeListener env (p, fs) =
             ((if err = None then p'
               else p'\<lparr>errorLog := errorLog p' @ [''Failed on saving preferences'']\<rparr>), fs')
         \<and> p' = p\<lparr>suspendChange := True, pendingResets := pendingResets p + 1\<rparr>
         \<and> calls fs' = calls fs @ MkdirAll (Dir env (storagePath env)) # rest"
    by blast
qed

lemma save_darkStore:
  "save exampleEnv (darkStore, emptyFs) =
     (None, darkStore\<lparr>suspendChange := True, pendingResets := 1\<rparr>,
      \<lparr>files = [''/cfg/app/preferences.json'' \<mapsto> ''dark''], dirs = {''/cfg/app''},
       failing = (\<lambda>c. None),
       calls = [MkdirAll ''/cfg/app'', Create ''/cfg/app/preferences.json'',
                Write ''/cfg/app/preferences.json'', Sync ''/cfg/app/preferences.json'',
                Close ''/cfg/app/preferences.json'']\<rparr>)"
  by (simp add: save_def saveToFile_def exampleEnv_def darkStore_def emptyFs_def
      newPreferences_def os_MkdirAll_def os_Create_def encodeValues_def file_Write_def
      file_Sync_def file_Close_def called_def resetSuspend_def)

theorem changeListener_guards_witness:
  "numSuspendedChanges
     (fst (changeListener exampleEnv (darkStore\<lparr>suspendChange := True\<rparr>, emptyFs))) = 1
   \<and> snd (changeListener exampleEnv (darkStore\<lparr>suspendChange := True\<rparr>, emptyFs)) = emptyFs
   \<and> changeListener exampleEnv (darkStore\<lparr>loadingInProgress := True\<rparr>, emptyFs) =
       (darkStore\<lparr>loadingInProgress := True\<rparr>, emptyFs)
   \<and> suspendChange (fst (changeListener exampleEnv (darkStore, emptyFs)))
   \<and> pendingResets (fst (changeListener exampleEnv (darkStore, emptyFs))) = 1
   \<and> files (snd (changeListener exampleEnv (darkStore, emptyFs))) ''/cfg/app/preferences.json''
       = Some ''dark''"
proof -
  have d: "\<not> suspendChange darkStore" "\<not> loadingInProgress darkStore"
    "numSuspendedChanges darkStore = 0" "pendingResets darkStore = 0"
    by (simp_all add: darkStore_def newPreferences_def)
  from changeListener_guards [of "darkStore\<lparr>suspendChange := True\<rparr>" exampleEnv emptyFs] d
  have a: "changeListener exampleEnv (darkStore\<lparr>suspendChange := True\<rparr>, emptyFs) =
           (darkStore\<lparr>suspendChange := True, numSuspendedChanges := 1\<rparr>, emptyFs)"
    by simp
  from changeListener_guards [of "darkStore\<lparr>loadingInProgress := True\<rparr>" exampleEnv emptyFs] d
  have b: "changeListener exampleEnv (darkStore\<lparr>loadingInProgress := True\<rparr>, emptyFs) =
           (darkStore\<lparr>loadingInProgress := True\<rparr>, emptyFs)"
    by simp
  from changeListener_guards [of darkStore exampleEnv emptyFs] d
  have c: "changeListener exampleEnv (darkStore, emptyFs) =
           (darkStore\<lparr>suspendChange := True, pendingResets := 1\<rparr>,
            snd (snd (save exampleEnv (darkStore, emptyFs))))"
    by (auto simp: save_darkStore)
  show ?thesis
    unfolding a b c by (simp add: save_darkStore)
qed

text \<open>
  Claim C3 as stated fails: a notification that arrives while only \<^verbatim>\<open>loadingInProgress\<close>
  is active does not increment \<^verbatim>\<open>numSuspendedChanges\<close>.
\<close>

theorem changeListener_guards_counterexample:
  "loadingInProgress (darkStore\<lparr>loadingInProgress := True\<rparr>)
   \<and> numSuspendedChanges (darkStore\<lparr>loadingInProgress := True\<rparr>) = 0
   \<and> numSuspendedChanges
       (fst (changeListener exampleEnv (darkStore\<lparr>loadingInProgress := True\<rparr>, emptyFs))) = 0"
  by (simp add: changeListener_def darkStore_def newPreferences_def)

subsection \<open>Loading\<close>

text \<open>
  Claim C8, as amended. When the backing file is absent (\<^verbatim>\<open>os.Open\<close> fails with an error
  for which \<^verbatim>\<open>os.IsNotExist\<close> holds), \<^verbatim>\<open>loadFromFile\<close> calls \<^verbatim>\<open>os.MkdirAll\<close> on the
  parent directory and leaves the store, and so its map, as it was; it returns \<^verbatim>\<open>nil\<close>
  when the directory could be created and the error of \<^verbatim>\<open>os.MkdirAll\<close> otherwise. Any
  other failure of \<^verbatim>\<open>os.Open\<close> is returned as the error, with the store unchanged and no
  directory created.
\<close>

theorem loadFromFile_missing_file:
  "(fst (os_Open path fs) = Inl err \<and> IsNotExist err
      \<and> failing fs (MkdirAll (Dir env path)) = None \<longrightarrow>
      loadFromFile env path (p, fs) =
        (None, p,
         called (MkdirAll (Dir env path))
           ((called (Open path) fs)\<lparr>dirs := insert (Dir env path) (dirs fs)\<rparr>)))
   \<and> (fst (os_Open path fs) = Inl err \<and> IsNotExist err
      \<and> failing fs (MkdirAll (Dir env path)) = Some err2 \<longrightarrow>
      loadFromFile env path (p, fs) =
        (Some err2, p, called (MkdirAll (Dir env path)) (called (Open path) fs)))
   \<and> (fst (os_Open path fs) = Inl err \<and> \<not> IsNotExist err \<longrightarrow>
      loadFromFile env path (p, fs) = (Some err, p, called (Open path) fs))"
proof -
  obtain r fs1 where ob: "os_Open path fs = (r, fs1)"
    by (cases "os_Open path fs") auto
  note of1 = os_Open_frame(1) [OF ob]
  show ?thesis
    using ob of1
    by (auto simp: loadFromFile_def os_MkdirAll_def)
qed

theorem loadFromFile_missing_file_witness:
  "loadFromFile exampleEnv ''/cfg/app/preferences.json'' (newPreferences ''app'', emptyFs) =
     (None, newPreferences ''app'',
      \<lparr>files = Map.empty, dirs = {''/cfg/app''}, failing = (\<lambda>c. None),
       calls = [Open ''/cfg/app/preferences.json'', MkdirAll ''/cfg/app'']\<rparr>)
   \<and> fst (loadFromFile exampleEnv ''/cfg/app/preferences.json'' (newPreferences ''app'', deniedFs))
       = Some (ErrOther ''permission denied'')
   \<and> fst (loadFromFile exampleEnv ''/cfg/app/preferences.json'' (newPreferences ''app'', lockedFs))
       = Some (ErrOther ''permission denied'')
   \<and> calls (snd (snd (loadFromFile exampleEnv ''/cfg/app/preferences.json''
               (newPreferences ''app'', lockedFs)))) = [Open ''/cfg/app/preferences.json'']"
proof -
  let ?path = "''/cfg/app/preferences.json''"
  let ?p = "newPreferences ''app'' :: string preferences"
  have o1: "fst (os_Open ?path emptyFs) = Inl ErrNotExist"
    by (simp add: os_Open_def emptyFs_def)
  have o2: "fst (os_Open ?path deniedFs) = Inl ErrNotExist"
    by (simp add: os_Open_def deniedFs_def)
  have o3: "fst (os_Open ?path lockedFs) = Inl (ErrOther ''permission denied'')"
    by (simp add: os_Open_def lockedFs_def)
  have m1: "failing emptyFs (MkdirAll (Dir exampleEnv ?path)) = None"
    by (simp add: emptyFs_def)
  have m2: "failing deniedFs (MkdirAll (Dir exampleEnv ?path)) =
            Some (ErrOther ''permission denied'')"
    by (simp add: deniedFs_def exampleEnv_def)
  from loadFromFile_missing_file [where path = ?path and fs = emptyFs and err = ErrNotExist
      and env = exampleEnv and p = ?p] o1 m1
  have a: "loadFromFile exampleEnv ?path (?p, emptyFs) =
        (None, ?p,
         called (MkdirAll (Dir exampleEnv ?path))
           ((called (Open ?path) emptyFs)\<lparr>dirs := insert (Dir exampleEnv ?path) (dirs emptyFs)\<rparr>))"
    by (simp add: IsNotExist_def)
  from loadFromFile_missing_file [where path = ?path and fs = deniedFs and err = ErrNotExist
      and env = exampleEnv and ?err2.0 = "ErrOther ''permission denied''" and p = ?p] o2 m2
  have b: "fst (loadFromFile exampleEnv ?path (?p, deniedFs)) =
           Some (ErrOther ''permission denied'')"
    by (simp add: IsNotExist_def)
  from loadFromFile_missing_file [where path = ?path and fs = lockedFs
      and err = "ErrOther ''permission denied''" and env = exampleEnv and p = ?p] o3
  have c: "loadFromFile exampleEnv ?path (?p, lockedFs) =
           (Some (ErrOther ''permission denied''), ?p, called (Open ?path) lockedFs)"
    by (simp add: IsNotExist_def)
  show ?thesis
    unfolding a b c by (simp add: called_def emptyFs_def exampleEnv_def lockedFs_def)
qed

text \<open>
  Claim C8 as stated fails: the backing file is absent, yet \<^verbatim>\<open>loadFromFile\<close> returns an
  error and no directory has been created, because \<^verbatim>\<open>os.MkdirAll\<close> failed.
\<close>

theorem loadFromFile_missing_file_counterexample:
  "files deniedFs ''/cfg/app/preferences.json'' = None
   \<and> fst (os_Open ''/cfg/app/preferences.json'' deniedFs) = Inl ErrNotExist
   \<and> fst (loadFromFile exampleEnv ''/cfg/app/preferences.json'' (newPreferences ''app'', deniedFs))
       = Some (ErrOther ''permission denied'')
   \<and> dirs (snd (snd (loadFromFile exampleEnv ''/cfg/app/preferences.json''
              (newPreferences ''app'', deniedFs)))) = {}"
  by (simp add: loadFromFile_def os_Open_def os_MkdirAll_def deniedFs_def exampleEnv_def
      IsNotExist_def called_def)






subsection \<open>The debounce window\<close>

lemma changeListener_funpow:
  "suspendChange p \<Longrightarrow>
   (changeListener env ^^ n) (p, fs) =
     (p\<lparr>numSuspendedChanges := numSuspendedChanges p + int n\<rparr>, fs)"
proof (induction n)
  case 0
  show ?case by simp
next
  case (Suc n)
  then show ?case
    by (simp add: changeListener_suspended)
qed

lemma changeListener_writes:
  "fileWrites (snd (changeListener env (p, fs))) \<le> fileWrites fs + 1"
proof (cases "suspendChange p \<or> loadingInProgress p")
  case True
  then show ?thesis
    by (cases "suspendChange p") (simp_all add: changeListener_suspended changeListener_loading)
next
  case False
  obtain err p' fs' where s: "save env (p, fs) = (err, p', fs')"
    by (cases "save env (p, fs)") auto
  then have "saveToFile env (storagePath env) (p, fs) = (err, p', fs')"
    by (simp add: save_def)
  from saveToFile_frame(3) [OF this] changeListener_saves [OF _ _ s] False
  show ?thesis by simp
qed

lemma resetSuspend_wakeup_writes:
  "fileWrites (snd (resetSuspend_wakeup env (p, fs))) \<le> fileWrites fs + 1"
  using changeListener_writes [where env = env and fs = fs]
  by (simp add: resetSuspend_wakeup_def FireChange_def Let_def)

lemma resetSuspend_wakeup_after_save:
  assumes "p1 = p\<lparr>suspendChange := True, pendingResets := pendingResets p + 1\<rparr>"
  shows "resetSuspend_wakeup env (p1\<lparr>numSuspendedChanges := c\<rparr>, fs) =
     (if 0 < c \<and> listening p
      then changeListener env (p\<lparr>suspendChange := False, numSuspendedChanges := 0\<rparr>, fs)
      else (p\<lparr>suspendChange := False, numSuspendedChanges := 0\<rparr>, fs))"
  by (simp add: assms resetSuspend_wakeup_def FireChange_def Let_def)

text \<open>
  Claim C1. A save opens the debounce window: it sets the suspend guard and writes the file
  at most once, exactly once when it succeeds. However many change notifications arrive
  before the reset goroutine of that save wakes up, the listener skips the save for each of
  them: they leave the file system as the save left it, so that exactly one file write
  reaches the disk in the window, and the counter counts them. When the goroutine wakes up
  it closes the window and, if notifications were counted and the store listens, fires one
  notification, which the listener handles as any other: the skipped notifications lead to
  at most one further write, which opens the next window.
\<close>

theorem debounce_window:
  assumes "saveToFile env path (p, fs) = (err, p1, fs1)"
  shows "suspendChange p1
       \<and> fileWrites fs1 \<le> fileWrites fs + 1
       \<and> (err = None \<longrightarrow> fileWrites fs1 = fileWrites fs + 1)
       \<and> (changeListener env ^^ n) (p1, fs1) =
           (p1\<lparr>numSuspendedChanges := numSuspendedChanges p + int n\<rparr>, fs1)
       \<and> fileWrites (snd ((changeListener env ^^ n) (p1, fs1))) = fileWrites fs1
       \<and> (0 < numSuspendedChanges p + int n \<and> listening p \<longrightarrow>
            resetSuspend_wakeup env ((changeListener env ^^ n) (p1, fs1)) =
              changeListener env (p\<lparr>suspendChange := False, numSuspendedChanges := 0\<rparr>, fs1))
       \<and> (\<not> (0 < numSuspendedChanges p + int n \<and> listening p) \<longrightarrow>
            resetSuspend_wakeup env ((changeListener env ^^ n) (p1, fs1)) =
              (p\<lparr>suspendChange := False, numSuspendedChanges := 0\<rparr>, fs1))
       \<and> fileWrites (snd (resetSuspend_wakeup env ((changeListener env ^^ n) (p1, fs1))))
           \<le> fileWrites fs1 + 1"
proof -
  note sf = saveToFile_frame [OF assms]
  from sf(1) have g: "suspendChange p1" and c: "numSuspendedChanges p1 = numSuspendedChanges p"
    by simp_all
  from changeListener_funpow [OF g, where env = env and n = n and fs = fs1] c
  have w: "(changeListener env ^^ n) (p1, fs1) =
           (p1\<lparr>numSuspendedChanges := numSuspendedChanges p + int n\<rparr>, fs1)"
    by simp
  note r = resetSuspend_wakeup_after_save [OF sf(1), of env "numSuspendedChanges p + int n" fs1]
  have b: "fileWrites (snd (resetSuspend_wakeup env ((changeListener env ^^ n) (p1, fs1))))
           \<le> fileWrites fs1 + 1"
    unfolding w by (rule resetSuspend_wakeup_writes)
  from g sf(3) sf(5) b show ?thesis
    unfolding w r by simp
qed

theorem debounce_window_witness:
  "fst (saveToFile exampleEnv ''/cfg/app/preferences.json'' (darkStore, emptyFs)) = None
   \<and> fileWrites (snd (snd (saveToFile exampleEnv ''/cfg/app/preferences.json''
        (darkStore, emptyFs)))) = 1
   \<and> fileWrites (snd ((changeListener exampleEnv ^^ 5)
        (snd (saveToFile exampleEnv ''/cfg/app/preferences.json'' (darkStore, emptyFs))))) = 1
   \<and> numSuspendedChanges (fst ((changeListener exampleEnv ^^ 5)
        (snd (saveToFile exampleEnv ''/cfg/app/preferences.json'' (darkStore, emptyFs))))) = 5
   \<and> fileWrites (snd (resetSuspend_wakeup exampleEnv ((changeListener exampleEnv ^^ 5)
        (snd (saveToFile exampleEnv ''/cfg/app/preferences.json'' (darkStore, emptyFs)))))) = 2"
proof -
  let ?path = "''/cfg/app/preferences.json''"
  let ?fs1 = "\<lparr>files = [?path \<mapsto> ''dark''], dirs = {''/cfg/app''}, failing = (\<lambda>c. None),
       calls = [MkdirAll ''/cfg/app'', Create ?path, Write ?path, Sync ?path, Close ?path]\<rparr>"
  have s: "saveToFile exampleEnv ?path (darkStore, emptyFs) =
           (None, darkStore\<lparr>suspendChange := True, pendingResets := 1\<rparr>, ?fs1)"
    using save_darkStore by (simp add: save_def exampleEnv_def)
  have z: "fileWrites emptyFs = 0" "numSuspendedChanges darkStore = 0" "listening darkStore"
    by (simp_all add: fileWrites_def emptyFs_def darkStore_def newPreferences_def)
  have t: "fileWrites (snd (changeListener exampleEnv
             (darkStore\<lparr>suspendChange := False, numSuspendedChanges := 0\<rparr>, ?fs1))) = 2"
    by (simp add: changeListener_def save_def saveToFile_def exampleEnv_def darkStore_def
        newPreferences_def os_MkdirAll_def os_Create_def encodeValues_def file_Write_def
        file_Sync_def file_Close_def called_def resetSuspend_def fileWrites_def)
  let ?p1 = "darkStore\<lparr>suspendChange := True, pendingResets := 1\<rparr>"
  note d = debounce_window [OF s, where n = 5]
  from d have a: "fileWrites ?fs1 = fileWrites emptyFs + 1"
    by blast
  from d have b: "(changeListener exampleEnv ^^ 5) (?p1, ?fs1) =
      (?p1\<lparr>numSuspendedChanges := numSuspendedChanges darkStore + int 5\<rparr>, ?fs1)"
    by blast
  from z have "0 < numSuspendedChanges darkStore + int 5 \<and> listening darkStore"
    by simp
  with d have c: "resetSuspend_wakeup exampleEnv ((changeListener exampleEnv ^^ 5) (?p1, ?fs1)) =
      changeListener exampleEnv (darkStore\<lparr>suspendChange := False, numSuspendedChanges := 0\<rparr>, ?fs1)"
    by blast
  show ?thesis
    unfolding s snd_conv fst_conv c t unfolding b using a z by simp
qed

subsection \<open>Saving and loading\<close>


lemma unmarshal_marshal_kept:
  "unmarshal (marshal GoNil) = GoNil"
  "unmarshal (marshal (GoBool b)) = GoBool b"
  "unmarshal (marshal (GoFloat64 x)) = GoFloat64 x"
  "unmarshal (marshal (GoString s)) = GoString s"
  by simp_all

lemma unmarshal_marshal_changed:
  "unmarshal (marshal (GoInt n)) = GoFloat64 (of_int n)"
  "unmarshal (marshal (GoBoolSlice bs)) = GoSlice (map GoBool bs)"
  "unmarshal (marshal (GoIntSlice ns)) = GoSlice (map (\<lambda>n. GoFloat64 (of_int n)) ns)"
  "unmarshal (marshal (GoFloat64Slice xs)) = GoSlice (map GoFloat64 xs)"
  "unmarshal (marshal (GoStringSlice ss)) = GoSlice (map GoString ss)"
  by (simp_all add: comp_def)






end
